theory Spec2Isabelle
  imports Main "HOL-Library.Word" "HOL-Library.Sublist"
begin

unbundle bit_operations_syntax

section \<open>The expression grammar (expression.peg)\<close>

text \<open>
  The grammar is a parsing expression grammar: a choice \<open>A / B\<close> tries \<open>B\<close> only when
  \<open>A\<close> fails at the same position, repetitions are greedy, and a choice that has
  succeeded is never reconsidered.  The parse tree keeps one node per operator rule,
  with the matched text at the leaves.
\<close>

datatype optag =
  ShiftRight | ShiftLeft | AndNot | Mask | Add | Sub | Mul
  | Eq | Lt | Gt | Le | Ge | Ne

datatype node =
  Constant string
  | DotIdentifier "string list"
  | Binary optag node node

text \<open>A leaf is a constant or a dotted identifier; every other node is a binary operation.\<close>

fun is_leaf :: "node \<Rightarrow> bool" where
  "is_leaf (Constant c) = True"
| "is_leaf (DotIdentifier is) = True"
| "is_leaf (Binary t l r) = False"

text \<open>
  The only recursion of the grammar is \<open>Grouping <- ... '(' Op ')' ...\<close>.  The fuel
  bounds the depth of parentheses; running out of it is a result of its own, apart
  from a failed match.
\<close>

datatype 'a presult = OutOfFuel | NoMatch | Match 'a string

text \<open>\<open>Spacing <- [ \t\n\r]+\<close>, used only as \<open>Spacing?\<close>.\<close>

definition is_space :: "char \<Rightarrow> bool" where
  "is_space c = (c = CHR '' '' \<or> c = CHR 0x09 \<or> c = CHR 0x0A \<or> c = CHR 0x0D)"

definition Spacing_opt :: "string \<Rightarrow> string" where
  "Spacing_opt s = dropWhile is_space s"

text \<open>\<open>Constant <- ("0x" [a-fA-F0-9]+) / [0-9]+\<close>\<close>

definition is_digit :: "char \<Rightarrow> bool" where
  "is_digit c = (48 \<le> (of_char c :: nat) \<and> (of_char c :: nat) \<le> 57)"

definition is_hex :: "char \<Rightarrow> bool" where
  "is_hex c = ((97 \<le> (of_char c :: nat) \<and> (of_char c :: nat) \<le> 102)
     \<or> (65 \<le> (of_char c :: nat) \<and> (of_char c :: nat) \<le> 70)
     \<or> (48 \<le> (of_char c :: nat) \<and> (of_char c :: nat) \<le> 57))"

definition Constant_rule :: "string \<Rightarrow> (string \<times> string) option" where
  "Constant_rule s =
     (case s of
        a # b # r \<Rightarrow>
          (if a = CHR ''0'' \<and> b = CHR ''x'' \<and> takeWhile is_hex r \<noteq> []
           then Some (a # b # takeWhile is_hex r, dropWhile is_hex r)
           else if takeWhile is_digit s \<noteq> []
           then Some (takeWhile is_digit s, dropWhile is_digit s)
           else None)
      | _ \<Rightarrow>
          (if takeWhile is_digit s \<noteq> []
           then Some (takeWhile is_digit s, dropWhile is_digit s)
           else None))"

text \<open>\<open>Identifier <- [A-Z] [_A-Za-z0-9]*\<close>\<close>

definition is_upper :: "char \<Rightarrow> bool" where
  "is_upper c = (65 \<le> (of_char c :: nat) \<and> (of_char c :: nat) \<le> 90)"

definition is_ident_char :: "char \<Rightarrow> bool" where
  "is_ident_char c = (c = CHR ''_''
     \<or> (65 \<le> (of_char c :: nat) \<and> (of_char c :: nat) \<le> 90)
     \<or> (97 \<le> (of_char c :: nat) \<and> (of_char c :: nat) \<le> 122)
     \<or> (48 \<le> (of_char c :: nat) \<and> (of_char c :: nat) \<le> 57))"

definition Identifier :: "string \<Rightarrow> (string \<times> string) option" where
  "Identifier s =
     (case s of
        [] \<Rightarrow> None
      | c # r \<Rightarrow>
          (if is_upper c then Some (c # takeWhile is_ident_char r, dropWhile is_ident_char r)
           else None))"

text \<open>
  \<open>DotIdentifier <- Identifier ('.' Identifier)*\<close>.  The repetition stops, without
  consuming the dot, at a dot that no identifier follows.
\<close>

function DotIdentifier_tail :: "string \<Rightarrow> string list \<times> string" where
  "DotIdentifier_tail s =
     (case s of
        [] \<Rightarrow> ([], s)
      | c # r \<Rightarrow>
          (if c = CHR ''.'' then
             (case Identifier r of
                None \<Rightarrow> ([], s)
              | Some (i, r') \<Rightarrow>
                  (case DotIdentifier_tail r' of (is, r'') \<Rightarrow> (i # is, r'')))
           else ([], s)))"
  by pat_completeness auto
termination
proof (relation "measure length")
  fix s :: string and c r x2 i r'
  assume "s = c # r" and "Identifier r = Some x2" and "(i, r') = x2"
  then have "length r' \<le> length r"
    by (auto simp: Identifier_def length_dropWhile_le le_SucI split: list.splits if_splits)
  then show "(r', s) \<in> measure length"
    using \<open>s = c # r\<close> by simp
qed simp

declare DotIdentifier_tail.simps [simp del]

definition DotIdentifier_rule :: "string \<Rightarrow> (string list \<times> string) option" where
  "DotIdentifier_rule s =
     (case Identifier s of
        None \<Rightarrow> None
      | Some (i, r) \<Rightarrow> (case DotIdentifier_tail r of (is, r') \<Rightarrow> Some (i # is, r')))"

text \<open>The literal of each operator rule, in the order in which \<open>Op\<close> and \<open>BooleanOp\<close> try them.\<close>

definition Op_alternatives :: "(optag \<times> string) list" where
  "Op_alternatives =
     [(ShiftRight, ''>>''), (ShiftLeft, ''<<''), (AndNot, ''&^''), (Mask, ''&''),
      (Add, ''+''), (Sub, ''-''), (Mul, ''*''),
      (Eq, ''==''), (Lt, ''<''), (Gt, ''>''), (Le, ''<=''), (Ge, ''>=''), (Ne, ''!='')]"

definition literal :: "string \<Rightarrow> string \<Rightarrow> string option" where
  "literal tok s = (if take (length tok) s = tok then Some (drop (length tok) s) else None)"

text \<open>
  \<open>Grouping <- Spacing? ('(' Op ')' / Constant / DotIdentifier) Spacing?\<close>,
  \<open>Op <- ShiftRight / ShiftLeft / AndNot / Mask / Add / Sub / Mul / BooleanOp\<close> and the
  operator rules, each \<open>Grouping "tok" Grouping\<close>.  \<open>Paren\<close> is the first alternative
  of \<open>Grouping\<close>, \<open>'(' Op ')'\<close>; \<open>Op_from\<close> is \<open>Op\<close> from a given alternative on.
\<close>

fun Paren :: "nat \<Rightarrow> string \<Rightarrow> node presult"
  and Grouping :: "nat \<Rightarrow> string \<Rightarrow> node presult"
  and Op_from :: "nat \<Rightarrow> (optag \<times> string) list \<Rightarrow> string \<Rightarrow> node presult"
where
  "Paren fuel [] = NoMatch"
| "Paren fuel (c # r) =
     (if c = CHR ''(''
      then (case fuel of
              0 \<Rightarrow> OutOfFuel
            | Suc fuel' \<Rightarrow>
                (case Op_from fuel' Op_alternatives r of
                   OutOfFuel \<Rightarrow> OutOfFuel
                 | NoMatch \<Rightarrow> NoMatch
                 | Match n r2 \<Rightarrow>
                     (case literal '')'' r2 of
                        None \<Rightarrow> NoMatch
                      | Some r3 \<Rightarrow> Match n r3)))
      else NoMatch)"
| "Grouping fuel s =
     (case Paren fuel (Spacing_opt s) of
        OutOfFuel \<Rightarrow> OutOfFuel
      | Match n r3 \<Rightarrow> Match n (Spacing_opt r3)
      | NoMatch \<Rightarrow>
          (case Constant_rule (Spacing_opt s) of
             Some (c, r) \<Rightarrow> Match (Constant c) (Spacing_opt r)
           | None \<Rightarrow>
               (case DotIdentifier_rule (Spacing_opt s) of
                  Some (is, r) \<Rightarrow> Match (DotIdentifier is) (Spacing_opt r)
                | None \<Rightarrow> NoMatch)))"
| "Op_from fuel [] s = NoMatch"
| "Op_from fuel ((tag, tok) # alts) s =
     (case Grouping fuel s of
        OutOfFuel \<Rightarrow> OutOfFuel
      | NoMatch \<Rightarrow> Op_from fuel alts s
      | Match l r1 \<Rightarrow>
          (case literal tok r1 of
             None \<Rightarrow> Op_from fuel alts s
           | Some r2 \<Rightarrow>
               (case Grouping fuel r2 of
                  OutOfFuel \<Rightarrow> OutOfFuel
                | NoMatch \<Rightarrow> Op_from fuel alts s
                | Match r r3 \<Rightarrow> Match (Binary tag l r) r3)))"

definition Op :: "nat \<Rightarrow> string \<Rightarrow> node presult" where
  "Op fuel s = Op_from fuel Op_alternatives s"

text \<open>
  \<open>Expression <- (Op / Grouping) EndOfFile\<close>, \<open>EndOfFile <- !.\<close>.  When \<open>Op\<close> matches
  and input is left over, the sequence fails: \<open>Grouping\<close> is the alternative to a failed
  \<open>Op\<close>, not to a failed end of file.
\<close>

definition Expression :: "nat \<Rightarrow> string \<Rightarrow> node presult" where
  "Expression fuel s =
     (case (case Op fuel s of
              OutOfFuel \<Rightarrow> OutOfFuel
            | Match n r \<Rightarrow> Match n r
            | NoMatch \<Rightarrow> Grouping fuel s) of
        OutOfFuel \<Rightarrow> OutOfFuel
      | NoMatch \<Rightarrow> NoMatch
      | Match n r \<Rightarrow> (if r = [] then Match n [] else NoMatch))"

text \<open>
  \<open>EXPRESSION.Parse\<close>: the text parses when \<open>Expression\<close> matches.  No input nests
  parentheses deeper than its own length.
\<close>

definition Parse :: "string \<Rightarrow> node presult" where
  "Parse s = Expression (length s) s"


section \<open>Go types and values as reflection shows them\<close>

type_synonym byte = "8 word"

text \<open>
  A type has a name (empty for an unnamed type) and a kind; \<open>reflect.Type.Kind\<close> is
  \<open>tkind\<close>.  A struct field has a name, a type and a tag, the tag as the list of its
  key/value pairs.  The kinds the decoder has no case for are \<open>KPtr\<close> and \<open>KOther\<close>
  (map, chan, func, interface, complex, uintptr, unsafe pointer).
\<close>

datatype gtype = T (tname: string) (tkind: gkind)
  and gkind =
    KBool | KUint | KUint64 | KUint32 | KUint16 | KUint8
  | KInt | KInt64 | KInt32 | KInt16 | KInt8
  | KFloat32 | KFloat64
  | KArray nat gtype | KSlice gtype | KString
  | KStruct "field list"
  | KPtr gtype
  | KOther string
  and field = Field (fname: string) (ftype: gtype) (ftag: "(string \<times> string) list")

text \<open>\<open>StructTag.Get\<close>: the value of the key, the empty string when the key is absent.\<close>

definition Get :: "(string \<times> string) list \<Rightarrow> string \<Rightarrow> string" where
  "Get tag key = (case map_of tag key of None \<Rightarrow> [] | Some v \<Rightarrow> v)"

text \<open>
  Values.  Unsigned and signed integers hold their numeric value, floats their bit
  pattern, a struct its fields in declaration order with their names.
\<close>

datatype gval =
    VBool bool
  | VUint nat
  | VInt int
  | VFloat32 "32 word"
  | VFloat64 "64 word"
  | VList "gval list"
  | VString "byte list"
  | VStruct "(string \<times> gval) list"
  | VNil

text \<open>The zero value of a type, as \<open>reflect.MakeSlice\<close> fills a new slice with.\<close>

primrec zero_value :: "gtype \<Rightarrow> gval"
  and zero_kind :: "gkind \<Rightarrow> gval"
  and zero_field :: "field \<Rightarrow> string \<times> gval"
where
  "zero_value (T n k) = zero_kind k"
| "zero_kind KBool = VBool False"
| "zero_kind KUint = VUint 0"
| "zero_kind KUint64 = VUint 0"
| "zero_kind KUint32 = VUint 0"
| "zero_kind KUint16 = VUint 0"
| "zero_kind KUint8 = VUint 0"
| "zero_kind KInt = VInt 0"
| "zero_kind KInt64 = VInt 0"
| "zero_kind KInt32 = VInt 0"
| "zero_kind KInt16 = VInt 0"
| "zero_kind KInt8 = VInt 0"
| "zero_kind KFloat32 = VFloat32 0"
| "zero_kind KFloat64 = VFloat64 0"
| "zero_kind (KArray n t) = VList (replicate n (zero_value t))"
| "zero_kind (KSlice t) = VList []"
| "zero_kind KString = VString []"
| "zero_kind (KStruct fs) = VStruct (map zero_field fs)"
| "zero_kind (KPtr t) = VNil"
| "zero_kind (KOther k) = VNil"
| "zero_field (Field n t tag) = (n, zero_value t)"

section \<open>Errors\<close>

text \<open>
  Every \<open>return err\<close> of reader.go and every panic of the run time it can reach is a
  value: \<open>EOF\<close> and \<open>NegativePosition\<close> come from the byte source, \<open>ShortRead\<close> is
  "Didn't read the expected number of bytes", \<open>NotPointer\<close> is "Expected a pointer not
  ...", \<open>UnknownLength\<close> is "SliceHeader require a known length", \<open>UnsupportedKind\<close> is
  "Don't know how to read type ...", \<open>ParseError\<close> is \<open>e.Error()\<close> of a tag that does
  not parse, \<open>UnresolvedPath\<close> is the evaluator's error, \<open>HookError\<close> is whatever a
  \<open>Read\<close> or \<open>Validate\<close> method of the caller returns.  \<open>BadValue\<close> stands for a value
  that does not have the shape of its type, which reflection never presents.
\<close>

datatype error =
    EOF
  | NegativePosition
  | ShortRead
  | NotPointer
  | UnknownLength
  | UnsupportedKind
  | ParseError string
  | UnresolvedPath
  | HookError string
  | Panic string
  | BadValue

section \<open>Go's int\<close>

text \<open>
  \<open>int\<close> is 64 bits wide on the platforms the package is built for.  It is modelled by
  the integers, with the wrap-around of an arithmetic result written out.
\<close>

definition wrap64 :: "int \<Rightarrow> int" where
  "wrap64 x = (x + 2 ^ 63) mod 2 ^ 64 - 2 ^ 63"

definition MaxInt32 :: int where
  "MaxInt32 = 2147483647"


section \<open>The expression evaluator\<close>

text \<open>
  Modelled from the spec: \<open>expression.Eval\<close> (eval.go is not among the sources; only
  its test is).  Constants are decimal or \<open>0x\<close>-prefixed hexadecimal and evaluate to
  themselves.  A dotted identifier is resolved by name through the fields of the record
  in scope, each further identifier through the record-typed value of the step before;
  an unknown name or a step through a value that is not a record is \<open>UnresolvedPath\<close>.
  A binary node evaluates its left child, then its right child, then applies the
  operator on one signed integer width: the shifts are logical, \<open>&^\<close> is "left AND NOT
  right", a comparison gives 1 or 0.  The spec gives no rule for a path that ends at a
  value that is not an integer, nor for a negative shift count; a non-integer is taken
  as unresolved and a negative shift count as zero.
\<close>

definition digit_value :: "char \<Rightarrow> int" where
  "digit_value c =
     (let n = (of_char c :: nat) in
      if 48 \<le> n \<and> n \<le> 57 then int n - 48
      else if 97 \<le> n \<and> n \<le> 102 then int n - 87
      else int n - 55)"

definition number_value :: "int \<Rightarrow> string \<Rightarrow> int" where
  "number_value base ds = foldl (\<lambda>a c. a * base + digit_value c) 0 ds"

definition constant_value :: "string \<Rightarrow> int" where
  "constant_value s =
     (case s of
        a # b # r \<Rightarrow> (if a = CHR ''0'' \<and> b = CHR ''x'' then number_value 16 r
                      else number_value 10 s)
      | _ \<Rightarrow> number_value 10 s)"

fun resolve :: "gval \<Rightarrow> string list \<Rightarrow> error + gval" where
  "resolve v [] = Inr v"
| "resolve (VStruct fs) (i # is) =
     (case map_of fs i of
        None \<Rightarrow> Inl UnresolvedPath
      | Some v \<Rightarrow> resolve v is)"
| "resolve v (i # is) = Inl UnresolvedPath"

definition apply_op :: "optag \<Rightarrow> int \<Rightarrow> int \<Rightarrow> int" where
  "apply_op t a b =
     (case t of
        ShiftRight \<Rightarrow> sint (drop_bit (nat b) (word_of_int a :: 64 word))
      | ShiftLeft \<Rightarrow> sint (push_bit (nat b) (word_of_int a :: 64 word))
      | AndNot \<Rightarrow> a AND NOT b
      | Mask \<Rightarrow> a AND b
      | Add \<Rightarrow> wrap64 (a + b)
      | Sub \<Rightarrow> wrap64 (a - b)
      | Mul \<Rightarrow> wrap64 (a * b)
      | Eq \<Rightarrow> (if a = b then 1 else 0)
      | Lt \<Rightarrow> (if a < b then 1 else 0)
      | Gt \<Rightarrow> (if a > b then 1 else 0)
      | Le \<Rightarrow> (if a \<le> b then 1 else 0)
      | Ge \<Rightarrow> (if a \<ge> b then 1 else 0)
      | Ne \<Rightarrow> (if a \<noteq> b then 1 else 0))"

fun Eval :: "gval \<Rightarrow> node \<Rightarrow> error + int" where
  "Eval ctx (Constant c) = Inr (wrap64 (constant_value c))"
| "Eval ctx (DotIdentifier is) =
     (case resolve ctx is of
        Inl e \<Rightarrow> Inl e
      | Inr (VInt i) \<Rightarrow> Inr i
      | Inr (VUint n) \<Rightarrow> Inr (wrap64 (int n))
      | Inr _ \<Rightarrow> Inl UnresolvedPath)"
| "Eval ctx (Binary t l r) =
     (case Eval ctx l of
        Inl e \<Rightarrow> Inl e
      | Inr a \<Rightarrow>
          (case Eval ctx r of
             Inl e \<Rightarrow> Inl e
           | Inr b \<Rightarrow> Inr (apply_op t a b)))"

text \<open>
  The pattern every directive of reader.go repeats: parse the tag's text, return
  \<open>e.Error()\<close> when it does not parse, else evaluate the root node against the struct
  being read and return the evaluator's error, if any.
\<close>

definition eval_tag :: "gval \<Rightarrow> string \<Rightarrow> error + int" where
  "eval_tag ctx text =
     (case Parse text of
        Match n rest \<Rightarrow> Eval ctx n
      | NoMatch \<Rightarrow> Inl (ParseError text)
      | OutOfFuel \<Rightarrow> Inl (ParseError text))"

section \<open>The byte source and the BinaryReader (reader.go)\<close>

text \<open>
  The \<open>io.ReadSeeker\<close> is an in-memory source in the manner of \<open>bytes.Reader\<close>: \<open>Read\<close>
  at or past the end returns \<open>EOF\<close>, otherwise it returns as many bytes as are left, up
  to the length of the buffer; \<open>Seek\<close> relative to the current position fails when the
  new position is negative and may go past the end.  The source also records, in
  order, every call it receives: the size of the buffer of a read, the offset of a
  seek.
\<close>

datatype call = ReadCall nat | SeekCall int

record source =
  data :: "byte list"
  pos :: nat
  calls :: "call list"

datatype byte_order = LittleEndian | BigEndian

record BinaryReader =
  Reader :: source
  Endianess :: byte_order

definition source_Read :: "nat \<Rightarrow> source \<Rightarrow> (error + byte list) \<times> source" where
  "source_Read n s =
     (let s' = s\<lparr>calls := calls s @ [ReadCall n]\<rparr> in
      if length (data s) \<le> pos s then (Inl EOF, s')
      else (Inr (take n (drop (pos s) (data s))),
            s'\<lparr>pos := pos s + length (take n (drop (pos s) (data s)))\<rparr>))"

definition source_Seek :: "int \<Rightarrow> source \<Rightarrow> (error + int) \<times> source" where
  "source_Seek offset s =
     (let s' = s\<lparr>calls := calls s @ [SeekCall offset]\<rparr> in
      if int (pos s) + offset < 0 then (Inl NegativePosition, s')
      else (Inr (int (pos s) + offset), s'\<lparr>pos := nat (int (pos s) + offset)\<rparr>))"

text \<open>\<open>BinaryReader.Seek\<close>, always called with whence 1.\<close>

definition Seek :: "int \<Rightarrow> BinaryReader \<Rightarrow> (error + int) \<times> BinaryReader" where
  "Seek offset r =
     (case source_Seek offset (Reader r) of
        (res, s') \<Rightarrow> (res, r\<lparr>Reader := s'\<rparr>))"

text \<open>\<open>BinaryReader.Read\<close>; \<open>sz\<close> is its \<open>size\<close>.  \<open>make([]byte, size)\<close> panics on a negative size.
  It also fails for a size beyond what the machine can allocate; the model has no
  such limit, a source that holds \<open>size\<close> bytes being taken to fit in memory with
  its buffer.\<close>

definition Read :: "int \<Rightarrow> BinaryReader \<Rightarrow> (error + byte list) \<times> BinaryReader" where
  "Read sz r =
     (if sz < 0 then (Inl (Panic ''makeslice: len out of range''), r)
      else if sz = 0 then (Inr [], r)
      else (case source_Read (nat sz) (Reader r) of
              (Inl e, s') \<Rightarrow> (Inl e, r\<lparr>Reader := s'\<rparr>)
            | (Inr bs, s') \<Rightarrow>
                (if length bs \<noteq> nat sz then (Inl ShortRead, r\<lparr>Reader := s'\<rparr>)
                 else (Inr bs, r\<lparr>Reader := s'\<rparr>))))"

text \<open>\<open>Endianess.Uint16\<close>, \<open>Uint32\<close>, \<open>Uint64\<close>: the bytes as a number, in the configured order.\<close>

definition bytes_value :: "byte_order \<Rightarrow> byte list \<Rightarrow> nat" where
  "bytes_value ord bs =
     foldr (\<lambda>b a. unat b + 256 * a) (case ord of LittleEndian \<Rightarrow> bs | BigEndian \<Rightarrow> rev bs) 0"

definition Uint64 :: "BinaryReader \<Rightarrow> (error + 64 word) \<times> BinaryReader" where
  "Uint64 r =
     (case Read 8 r of
        (Inl e, r') \<Rightarrow> (Inl e, r')
      | (Inr d, r') \<Rightarrow> (Inr (word_of_nat (bytes_value (Endianess r) d)), r'))"

definition Uint32 :: "BinaryReader \<Rightarrow> (error + 32 word) \<times> BinaryReader" where
  "Uint32 r =
     (case Read 4 r of
        (Inl e, r') \<Rightarrow> (Inl e, r')
      | (Inr d, r') \<Rightarrow> (Inr (word_of_nat (bytes_value (Endianess r) d)), r'))"

definition Uint16 :: "BinaryReader \<Rightarrow> (error + 16 word) \<times> BinaryReader" where
  "Uint16 r =
     (case Read 2 r of
        (Inl e, r') \<Rightarrow> (Inl e, r')
      | (Inr d, r') \<Rightarrow> (Inr (word_of_nat (bytes_value (Endianess r) d)), r'))"

definition Uint8 :: "BinaryReader \<Rightarrow> (error + 8 word) \<times> BinaryReader" where
  "Uint8 r =
     (case Read 1 r of
        (Inl e, r') \<Rightarrow> (Inl e, r')
      | (Inr d, r') \<Rightarrow>
          (case d of
             [] \<Rightarrow> (Inl (Panic ''index out of range''), r')
           | b # bs \<Rightarrow> (Inr b, r')))"

text \<open>
  \<open>Int64\<close>, \<open>Int32\<close>, \<open>Int16\<close>, \<open>Int8\<close> convert the unsigned value to the signed type of
  the same width, which keeps the bits; \<open>sint\<close> reads them as two's complement.
  \<open>Float32\<close> and \<open>Float64\<close> reinterpret the bits of \<open>Int32\<close> and \<open>Int64\<close>.
\<close>

definition Int64 :: "BinaryReader \<Rightarrow> (error + 64 word) \<times> BinaryReader" where
  "Int64 r = (case Uint64 r of (Inl e, r') \<Rightarrow> (Inl e, r') | (Inr d, r') \<Rightarrow> (Inr d, r'))"

definition Int32 :: "BinaryReader \<Rightarrow> (error + 32 word) \<times> BinaryReader" where
  "Int32 r = (case Uint32 r of (Inl e, r') \<Rightarrow> (Inl e, r') | (Inr d, r') \<Rightarrow> (Inr d, r'))"

definition Int16 :: "BinaryReader \<Rightarrow> (error + 16 word) \<times> BinaryReader" where
  "Int16 r = (case Uint16 r of (Inl e, r') \<Rightarrow> (Inl e, r') | (Inr d, r') \<Rightarrow> (Inr d, r'))"

definition Int8 :: "BinaryReader \<Rightarrow> (error + 8 word) \<times> BinaryReader" where
  "Int8 r =
     (case Read 1 r of
        (Inl e, r') \<Rightarrow> (Inl e, r')
      | (Inr d, r') \<Rightarrow>
          (case d of
             [] \<Rightarrow> (Inl (Panic ''index out of range''), r')
           | b # bs \<Rightarrow> (Inr b, r')))"

definition Float32 :: "BinaryReader \<Rightarrow> (error + 32 word) \<times> BinaryReader" where
  "Float32 r = (case Int32 r of (Inl e, r') \<Rightarrow> (Inl e, r') | (Inr i32, r') \<Rightarrow> (Inr i32, r'))"

definition Float64 :: "BinaryReader \<Rightarrow> (error + 64 word) \<times> BinaryReader" where
  "Float64 r = (case Int64 r of (Inl e, r') \<Rightarrow> (Inl e, r') | (Inr i64, r') \<Rightarrow> (Inr i64, r'))"


section \<open>The decode engine (BinaryReader.ReadInterface)\<close>

text \<open>
  What the engine takes from its surroundings: whether a dynamic type implements
  \<open>Reader\<close> and \<open>Validateable\<close> (the type assertions \<open>v.(Reader)\<close> and
  \<open>v.(Validateable)\<close>), with the method when it does, and \<open>reflect.Type.Size\<close>.  A
  \<open>Read\<close> method gets the value and the reader and returns its error or the value it
  leaves behind, with the reader as it leaves it; a \<open>Validate\<close> method returns its error,
  if any.
\<close>

record env =
  as_Reader :: "gtype \<Rightarrow> (gval \<Rightarrow> BinaryReader \<Rightarrow> (error + gval) \<times> BinaryReader) option"
  as_Validateable :: "gtype \<Rightarrow> (gval \<Rightarrow> error option) option"
  Size :: "gtype \<Rightarrow> int"

text \<open>The type \<open>*t\<close> of \<open>x.Addr().Interface()\<close> for \<open>x\<close> of type \<open>t\<close>.\<close>

definition pointer_to :: "gtype \<Rightarrow> gtype" where
  "pointer_to t = T [] (KPtr t)"

text \<open>
  The loop of lines 163-171 and 266-275: read bytes up to a null byte, at most \<open>mx\<close> (the
  source's \<open>max\<close>) of them.  \<open>sz\<close> is \<open>size\<close>, set to \<open>i + 1\<close> when the null byte is found (in the struct
  field's loop only; the loop of the \<open>String\<close> case has no \<open>size\<close> and its caller drops
  it).
\<close>

function cstring_loop ::
  "int \<Rightarrow> int \<Rightarrow> byte list \<Rightarrow> int \<Rightarrow> BinaryReader \<Rightarrow> (error + byte list \<times> int) \<times> BinaryReader"
where
  "cstring_loop mx i dat sz r =
     (if i < mx then
        (case Uint8 r of
           (Inl e, r') \<Rightarrow> (Inl e, r')
         | (Inr u, r') \<Rightarrow>
             (if u = 0 then (Inr (dat, i + 1), r')
              else cstring_loop mx (i + 1) (dat @ [u]) sz r'))
      else (Inr (dat, sz), r))"
  by pat_completeness auto
termination
  by (relation "measure (\<lambda>(mx, i, dat, sz, r). nat (mx - i))") auto

declare cstring_loop.simps [simp del]

text \<open>Lines 181-190, the \<open>if\<close> directive: \<open>False\<close> is the \<open>continue\<close>.\<close>

definition field_if :: "gval \<Rightarrow> string \<Rightarrow> error + bool" where
  "field_if ctx fi =
     (if fi \<noteq> [] then
        (case eval_tag ctx fi of
           Inl e \<Rightarrow> Inl e
         | Inr ev \<Rightarrow> (if ev = 0 then Inr False else Inr True))
      else Inr True)"

text \<open>Lines 191-200, the \<open>skip\<close> directive.\<close>

definition field_skip :: "gval \<Rightarrow> string \<Rightarrow> BinaryReader \<Rightarrow> (error + unit) \<times> BinaryReader" where
  "field_skip ctx l r =
     (if l \<noteq> [] then
        (case eval_tag ctx l of
           Inl e \<Rightarrow> (Inl e, r)
         | Inr ev \<Rightarrow>
             (case Seek ev r of
                (Inl e, r') \<Rightarrow> (Inl e, r')
              | (Inr p, r') \<Rightarrow> (Inr (), r')))
      else (Inr (), r))"

text \<open>
  Lines 202-238, the \<open>length\<close> directive; the result is \<open>size\<close>, which starts as -1.
  \<open>int(s)\<close> keeps the value of a \<open>uint8\<close>, \<open>uint16\<close> or \<open>uint32\<close> and reads the bits of a
  \<open>uint64\<close> as two's complement.
\<close>

definition field_length :: "gval \<Rightarrow> string \<Rightarrow> BinaryReader \<Rightarrow> (error + int) \<times> BinaryReader" where
  "field_length ctx l r =
     (if l \<noteq> [] then
        (if l = ''uint8'' then
           (case Uint8 r of (Inl e, r') \<Rightarrow> (Inl e, r') | (Inr s, r') \<Rightarrow> (Inr (uint s), r'))
         else if l = ''uint16'' then
           (case Uint16 r of (Inl e, r') \<Rightarrow> (Inl e, r') | (Inr s, r') \<Rightarrow> (Inr (uint s), r'))
         else if l = ''uint32'' then
           (case Uint32 r of (Inl e, r') \<Rightarrow> (Inl e, r') | (Inr s, r') \<Rightarrow> (Inr (uint s), r'))
         else if l = ''uint64'' then
           (case Uint64 r of (Inl e, r') \<Rightarrow> (Inl e, r') | (Inr s, r') \<Rightarrow> (Inr (sint s), r'))
         else
           (case eval_tag ctx l of
              Inl e \<Rightarrow> (Inl e, r)
            | Inr ev \<Rightarrow> (Inr ev, r)))
      else (Inr (- 1), r))"

text \<open>
  Lines 241-277, a field of kind \<open>String\<close>: the bytes of the string and \<open>size\<close>
  afterwards.  The \<open>range\<close> loop cuts \<open>data\<close> at its first null byte.
\<close>

definition string_field ::
  "gval \<Rightarrow> string \<Rightarrow> int \<Rightarrow> BinaryReader \<Rightarrow> (error + byte list \<times> int) \<times> BinaryReader"
where
  "string_field ctx m sz r =
     (if sz \<ge> 0 then
        (case Read sz r of
           (Inl e, r') \<Rightarrow> (Inl e, r')
         | (Inr dat, r') \<Rightarrow> (Inr (takeWhile (\<lambda>v. v \<noteq> 0) dat, sz), r'))
      else if m \<noteq> [] then
        (case eval_tag ctx m of
           Inl e \<Rightarrow> (Inl e, r)
         | Inr ev \<Rightarrow> cstring_loop ev 0 [] sz r)
      else cstring_loop MaxInt32 0 [] sz r)"

text \<open>Lines 318-322: the correction \<open>seek\<close>, which starts as 0.\<close>

definition align_seek :: "int \<Rightarrow> int \<Rightarrow> int" where
  "align_seek align sz =
     (if align < sz
      then wrap64 ((wrap64 (sz + wrap64 (align - 1)) AND NOT (wrap64 (align - 1))) - sz)
      else if align > sz then wrap64 (align - sz)
      else 0)"

text \<open>Lines 305-328, the \<open>align\<close> directive.\<close>

definition field_align ::
  "gval \<Rightarrow> string \<Rightarrow> int \<Rightarrow> BinaryReader \<Rightarrow> (error + unit) \<times> BinaryReader"
where
  "field_align ctx al sz r =
     (if al \<noteq> [] then
        (case eval_tag ctx al of
           Inl e \<Rightarrow> (Inl e, r)
         | Inr align \<Rightarrow>
             (if align_seek align sz > 0 then
                (case Seek (align_seek align sz) r of
                   (Inl e, r') \<Rightarrow> (Inl e, r')
                 | (Inr p, r') \<Rightarrow> (Inr (), r'))
              else (Inr (), r)))
      else (Inr (), r))"

text \<open>
  Line 139 stores a \<open>float32\<close> through \<open>SetFloat(float64(f))\<close>.  The conversion to
  \<open>float64\<close> and back keeps every bit pattern but that of a signalling NaN (exponent
  all ones, fraction not zero, top bit of the fraction clear), whose top fraction bit
  it sets.
\<close>

definition through_float64 :: "32 word \<Rightarrow> 32 word" where
  "through_float64 f =
     (if f AND 0x7F800000 = 0x7F800000 \<and> f AND 0x007FFFFF \<noteq> 0 then f OR 0x00400000 else f)"

text \<open>
  \<open>reflect.Value.Set\<close> panics unless the value is assignable to the type of the
  destination.  A value of the unnamed type \<open>[]uint8\<close>, which \<open>Read\<close> returns, is
  assignable exactly to the types whose underlying type is \<open>[]uint8\<close>.
\<close>

definition assignable_from_bytes :: "gtype \<Rightarrow> bool" where
  "assignable_from_bytes t = (tkind t = KSlice (T ''uint8'' KUint8))"


text \<open>
  A field is exported when its name begins with an upper-case letter (names are taken
  as ASCII).  Reflection reads the value of an unexported field and refuses to change
  it: \<open>SetString\<close> and \<open>Set\<close> on it panic, with a message that names the method, and
  so does \<open>Addr().Interface()\<close>, with a message of its own.
\<close>

definition is_exported :: "string \<Rightarrow> bool" where
  "is_exported name = (case name of [] \<Rightarrow> False | c # cs \<Rightarrow> is_upper c)"

definition unexported_field :: "string \<Rightarrow> error" where
  "unexported_field m =
     Panic (''reflect: reflect.Value.'' @ m @ '' using value obtained using unexported field'')"

definition unexported_interface :: error where
  "unexported_interface =
     Panic ''reflect.Value.Interface: cannot return value obtained from unexported field or method''"

text \<open>
  \<open>ReadInterface\<close> calls itself on the address of an element or of a field, a pointer.
  \<open>ReadInterface_addr env t v r\<close> is that call for a destination \<open>x.Addr().Interface()\<close>
  with \<open>x\<close> of type \<open>t\<close> and value \<open>v\<close>: lines 60-62, then lines 67-336, which are
  \<open>ReadInterface_elem\<close> (the pointer test of lines 63-66 passes); its \<open>pt\<close> is the
  dynamic type of \<open>v\<close>, the pointer type, which line 333 asserts on.  \<open>read_kind\<close> is
  the \<open>switch v2.Kind()\<close> of lines 68-332, \<open>read_elems\<close> the loops of lines 148-152,
  154-158 and 290-294, \<open>read_fields\<close> the loop over the fields of lines 174-329 and
  \<open>read_field_value\<close> the \<open>switch f.Type().Kind()\<close> of lines 240-303, which gives the
  field's value and \<open>size\<close>.  \<open>read_fields\<close> holds the struct as the fields already
  passed, \<open>done\<close>, and those to come, \<open>todo\<close>; together they are \<open>&v2\<close>, the record
  the directives are evaluated against.  On an error the result is the error and the
  reader; the partly filled destination is not part of the result.  In
  \<open>read_field_value\<close> the panics of an unexported field come where the source calls
  \<open>f.SetString\<close> (line 277), \<open>f.Set\<close> (lines 286 and 295) and \<open>f.Addr().Interface()\<close>
  (line 298); the \<open>Set\<close> of line 286 panics for an unexported field and for a value that
  is not assignable, and where both hold the result is the panic of the assignment.
\<close>

function (sequential) ReadInterface_addr ::
    "env \<Rightarrow> gtype \<Rightarrow> gval \<Rightarrow> BinaryReader \<Rightarrow> (error + gval) \<times> BinaryReader"
  and ReadInterface_elem ::
    "env \<Rightarrow> gtype \<Rightarrow> gtype \<Rightarrow> gval \<Rightarrow> BinaryReader \<Rightarrow> (error + gval) \<times> BinaryReader"
  and read_kind ::
    "env \<Rightarrow> gkind \<Rightarrow> gval \<Rightarrow> BinaryReader \<Rightarrow> (error + gval) \<times> BinaryReader"
  and read_elems ::
    "env \<Rightarrow> gtype \<Rightarrow> gval list \<Rightarrow> BinaryReader \<Rightarrow> (error + gval list) \<times> BinaryReader"
  and read_fields ::
    "env \<Rightarrow> (string \<times> gval) list \<Rightarrow> field list \<Rightarrow> (string \<times> gval) list \<Rightarrow> BinaryReader
      \<Rightarrow> (error + (string \<times> gval) list) \<times> BinaryReader"
  and read_field_value ::
    "env \<Rightarrow> field \<Rightarrow> gval \<Rightarrow> int \<Rightarrow> gval \<Rightarrow> BinaryReader
      \<Rightarrow> (error + gval \<times> int) \<times> BinaryReader"
where
  "ReadInterface_addr env t v r =
     (case as_Reader env (pointer_to t) of
        Some ri \<Rightarrow> ri v r
      | None \<Rightarrow> ReadInterface_elem env (pointer_to t) t v r)"
| "ReadInterface_elem env pt (T tn k) v r =
     (case read_kind env k v r of
        (Inl e, r') \<Rightarrow> (Inl e, r')
      | (Inr v', r') \<Rightarrow>
          (case as_Validateable env pt of
             Some val \<Rightarrow>
               (case val v' of
                  Some e \<Rightarrow> (Inl e, r')
                | None \<Rightarrow> (Inr v', r'))
           | None \<Rightarrow> (Inr v', r')))"
| "read_kind env k v r =
     (case k of
        KBool \<Rightarrow>
          (case Uint8 r of (Inl e, r') \<Rightarrow> (Inl e, r') | (Inr d, r') \<Rightarrow> (Inr (VBool (d \<noteq> 0)), r'))
      | KUint \<Rightarrow>
          (case Uint64 r of (Inl e, r') \<Rightarrow> (Inl e, r') | (Inr d, r') \<Rightarrow> (Inr (VUint (unat d)), r'))
      | KUint64 \<Rightarrow>
          (case Uint64 r of (Inl e, r') \<Rightarrow> (Inl e, r') | (Inr d, r') \<Rightarrow> (Inr (VUint (unat d)), r'))
      | KUint32 \<Rightarrow>
          (case Uint32 r of (Inl e, r') \<Rightarrow> (Inl e, r') | (Inr d, r') \<Rightarrow> (Inr (VUint (unat d)), r'))
      | KUint16 \<Rightarrow>
          (case Uint16 r of (Inl e, r') \<Rightarrow> (Inl e, r') | (Inr d, r') \<Rightarrow> (Inr (VUint (unat d)), r'))
      | KUint8 \<Rightarrow>
          (case Uint8 r of (Inl e, r') \<Rightarrow> (Inl e, r') | (Inr d, r') \<Rightarrow> (Inr (VUint (unat d)), r'))
      | KInt \<Rightarrow>
          (case Int64 r of (Inl e, r') \<Rightarrow> (Inl e, r') | (Inr d, r') \<Rightarrow> (Inr (VInt (sint d)), r'))
      | KInt64 \<Rightarrow>
          (case Int64 r of (Inl e, r') \<Rightarrow> (Inl e, r') | (Inr d, r') \<Rightarrow> (Inr (VInt (sint d)), r'))
      | KInt32 \<Rightarrow>
          (case Int32 r of (Inl e, r') \<Rightarrow> (Inl e, r') | (Inr d, r') \<Rightarrow> (Inr (VInt (sint d)), r'))
      | KInt16 \<Rightarrow>
          (case Int16 r of (Inl e, r') \<Rightarrow> (Inl e, r') | (Inr d, r') \<Rightarrow> (Inr (VInt (sint d)), r'))
      | KInt8 \<Rightarrow>
          (case Int8 r of (Inl e, r') \<Rightarrow> (Inl e, r') | (Inr d, r') \<Rightarrow> (Inr (VInt (sint d)), r'))
      | KFloat32 \<Rightarrow>
          (case Float32 r of
             (Inl e, r') \<Rightarrow> (Inl e, r')
           | (Inr f, r') \<Rightarrow> (Inr (VFloat32 (through_float64 f)), r'))
      | KFloat64 \<Rightarrow>
          (case Float64 r of (Inl e, r') \<Rightarrow> (Inl e, r') | (Inr f, r') \<Rightarrow> (Inr (VFloat64 f), r'))
      | KArray n t \<Rightarrow>
          (case v of
             VList vs \<Rightarrow>
               (case read_elems env t vs r of
                  (Inl e, r') \<Rightarrow> (Inl e, r')
                | (Inr vs', r') \<Rightarrow> (Inr (VList vs'), r'))
           | _ \<Rightarrow> (Inl BadValue, r))
      | KSlice t \<Rightarrow>
          (case v of
             VList vs \<Rightarrow>
               (case read_elems env t vs r of
                  (Inl e, r') \<Rightarrow> (Inl e, r')
                | (Inr vs', r') \<Rightarrow> (Inr (VList vs'), r'))
           | _ \<Rightarrow> (Inl BadValue, r))
      | KString \<Rightarrow>
          (case cstring_loop MaxInt32 0 [] (- 1) r of
             (Inl e, r') \<Rightarrow> (Inl e, r')
           | (Inr (dat, sz), r') \<Rightarrow> (Inr (VString dat), r'))
      | KStruct fs \<Rightarrow>
          (case v of
             VStruct todo \<Rightarrow>
               (case read_fields env [] fs todo r of
                  (Inl e, r') \<Rightarrow> (Inl e, r')
                | (Inr done, r') \<Rightarrow> (Inr (VStruct done), r'))
           | _ \<Rightarrow> (Inl BadValue, r))
      | KPtr t \<Rightarrow> (Inl UnsupportedKind, r)
      | KOther kn \<Rightarrow> (Inl UnsupportedKind, r))"
| "read_elems env t [] r = (Inr [], r)"
| "read_elems env t (v # vs) r =
     (case ReadInterface_addr env t v r of
        (Inl e, r') \<Rightarrow> (Inl e, r')
      | (Inr v', r') \<Rightarrow>
          (case read_elems env t vs r' of
             (Inl e, r'') \<Rightarrow> (Inl e, r'')
           | (Inr vs', r'') \<Rightarrow> (Inr (v' # vs'), r'')))"
| "read_fields env done [] todo r = (Inr done, r)"
| "read_fields env done (f # fs) [] r = (Inl BadValue, r)"
| "read_fields env done (f # fs) ((n, v) # todo) r =
     (case field_if (VStruct (done @ (n, v) # todo)) (Get (ftag f) ''if'') of
        Inl e \<Rightarrow> (Inl e, r)
      | Inr False \<Rightarrow> read_fields env (done @ [(n, v)]) fs todo r
      | Inr True \<Rightarrow>
          (case field_skip (VStruct (done @ (n, v) # todo)) (Get (ftag f) ''skip'') r of
             (Inl e, r1) \<Rightarrow> (Inl e, r1)
           | (Inr u, r1) \<Rightarrow>
               (case field_length (VStruct (done @ (n, v) # todo)) (Get (ftag f) ''length'') r1 of
                  (Inl e, r2) \<Rightarrow> (Inl e, r2)
                | (Inr sz, r2) \<Rightarrow>
                    (case read_field_value env f v sz (VStruct (done @ (n, v) # todo)) r2 of
                       (Inl e, r3) \<Rightarrow> (Inl e, r3)
                     | (Inr (v', sz'), r3) \<Rightarrow>
                         (case field_align (VStruct (done @ (n, v') # todo))
                                 (Get (ftag f) ''align'') sz' r3 of
                            (Inl e, r4) \<Rightarrow> (Inl e, r4)
                          | (Inr u', r4) \<Rightarrow> read_fields env (done @ [(n, v')]) fs todo r4)))))"
| "read_field_value env (Field fn (T tn k) tag) v sz ctx r =
     (case k of
        KString \<Rightarrow>
          (case string_field ctx (Get tag ''max'') sz r of
             (Inl e, r') \<Rightarrow> (Inl e, r')
           | (Inr (dat, sz'), r') \<Rightarrow>
               (if is_exported fn then (Inr (VString dat, sz'), r')
                else (Inl (unexported_field ''SetString''), r')))
      | KSlice et \<Rightarrow>
          (if sz = - 1 then (Inl UnknownLength, r)
           else if tkind et = KInt8 then
             (case Read sz r of
                (Inl e, r') \<Rightarrow> (Inl e, r')
              | (Inr b, r') \<Rightarrow>
                  (if assignable_from_bytes (T tn k)
                   then (if is_exported fn
                         then (Inr (VList (map (\<lambda>x. VUint (unat x)) b), sz), r')
                         else (Inl (unexported_field ''Set''), r'))
                   else (Inl (Panic ''reflect.Set: value of type []uint8 is not assignable''), r')))
           else if sz < 0 then (Inl (Panic ''reflect.MakeSlice: negative len''), r)
           else
             (case read_elems env et (replicate (nat sz) (zero_value et)) r of
                (Inl e, r') \<Rightarrow> (Inl e, r')
              | (Inr vs, r') \<Rightarrow>
                  (if is_exported fn then (Inr (VList vs, sz), r')
                   else (Inl (unexported_field ''Set''), r'))))
      | _ \<Rightarrow>
          (if is_exported fn then
             (case ReadInterface_addr env (T tn k) v r of
                (Inl e, r') \<Rightarrow> (Inl e, r')
              | (Inr v', r') \<Rightarrow> (Inr (v', Size env (T tn k)), r'))
           else (Inl unexported_interface, r)))"
  by pat_completeness auto
termination
  by (relation "measures
        [(\<lambda>x. case x of
            Inl (Inl (env, t, v, r)) \<Rightarrow> size t
          | Inl (Inr (Inl (env, pt, t, v, r))) \<Rightarrow> size t
          | Inl (Inr (Inr (env, k, v, r))) \<Rightarrow> size k
          | Inr (Inl (env, t, vs, r)) \<Rightarrow> size t
          | Inr (Inr (Inl (env, done, fs, todo, r))) \<Rightarrow> size_list size fs
          | Inr (Inr (Inr (env, f, v, sz, ctx, r))) \<Rightarrow> size f),
         (\<lambda>x. case x of
            Inl (Inl a) \<Rightarrow> 1
          | Inl (Inr a) \<Rightarrow> 0
          | Inr (Inl a) \<Rightarrow> 2
          | Inr (Inr a) \<Rightarrow> 0),
         (\<lambda>x. case x of
            Inr (Inl (env, t, vs, r)) \<Rightarrow> length vs
          | _ \<Rightarrow> 0)]")
     simp_all

declare ReadInterface_addr.simps [simp del] ReadInterface_elem.simps [simp del]
  read_kind.simps [simp del] read_elems.simps [simp del] read_fields.simps [simp del]
  read_field_value.simps [simp del]

text \<open>
  \<open>ReadInterface\<close>, lines 59-337, for a destination \<open>v\<close> of dynamic type \<open>t\<close>.  The
  value \<open>v\<close> of a pointer is the value it points to; the pointer is not nil.
\<close>

definition ReadInterface ::
  "env \<Rightarrow> gtype \<Rightarrow> gval \<Rightarrow> BinaryReader \<Rightarrow> (error + gval) \<times> BinaryReader"
where
  "ReadInterface env t v r =
     (case as_Reader env t of
        Some ri \<Rightarrow> ri v r
      | None \<Rightarrow>
          (case tkind t of
             KPtr e \<Rightarrow> ReadInterface_elem env t e v r
           | _ \<Rightarrow> (Inl NotPointer, r)))"

text \<open>
  \<open>reflect.Type.Size\<close> as the 64-bit Go compiler lays values out, for the examples:
  every field at the next multiple of its alignment, one more byte after a last field
  of size zero in a struct that is not empty, the struct padded to a multiple of its
  alignment.  Kinds the decoder has no case for are taken as one word.
\<close>

primrec Align64 :: "gtype \<Rightarrow> nat"
  and kind_Align64 :: "gkind \<Rightarrow> nat"
  and field_Align64 :: "field \<Rightarrow> nat"
where
  "Align64 (T n k) = kind_Align64 k"
| "kind_Align64 KBool = 1"
| "kind_Align64 KUint = 8"
| "kind_Align64 KUint64 = 8"
| "kind_Align64 KUint32 = 4"
| "kind_Align64 KUint16 = 2"
| "kind_Align64 KUint8 = 1"
| "kind_Align64 KInt = 8"
| "kind_Align64 KInt64 = 8"
| "kind_Align64 KInt32 = 4"
| "kind_Align64 KInt16 = 2"
| "kind_Align64 KInt8 = 1"
| "kind_Align64 KFloat32 = 4"
| "kind_Align64 KFloat64 = 8"
| "kind_Align64 (KArray n t) = Align64 t"
| "kind_Align64 (KSlice t) = 8"
| "kind_Align64 KString = 8"
| "kind_Align64 (KStruct fs) = foldr max (map field_Align64 fs) 1"
| "kind_Align64 (KPtr t) = 8"
| "kind_Align64 (KOther k) = 8"
| "field_Align64 (Field n t tag) = Align64 t"

definition round_to :: "nat \<Rightarrow> nat \<Rightarrow> nat" where
  "round_to a n = ((n + a - 1) div a) * a"

definition pad_last :: "(nat \<times> nat) list \<Rightarrow> nat \<Rightarrow> nat" where
  "pad_last layout off =
     (if layout \<noteq> [] \<and> snd (last layout) = 0 \<and> 0 < off then off + 1 else off)"

primrec Size64 :: "gtype \<Rightarrow> nat"
  and kind_Size64 :: "gkind \<Rightarrow> nat"
  and field_Size64 :: "field \<Rightarrow> nat \<times> nat"
where
  "Size64 (T n k) = kind_Size64 k"
| "kind_Size64 KBool = 1"
| "kind_Size64 KUint = 8"
| "kind_Size64 KUint64 = 8"
| "kind_Size64 KUint32 = 4"
| "kind_Size64 KUint16 = 2"
| "kind_Size64 KUint8 = 1"
| "kind_Size64 KInt = 8"
| "kind_Size64 KInt64 = 8"
| "kind_Size64 KInt32 = 4"
| "kind_Size64 KInt16 = 2"
| "kind_Size64 KInt8 = 1"
| "kind_Size64 KFloat32 = 4"
| "kind_Size64 KFloat64 = 8"
| "kind_Size64 (KArray n t) = n * Size64 t"
| "kind_Size64 (KSlice t) = 24"
| "kind_Size64 KString = 16"
| "kind_Size64 (KStruct fs) =
     round_to (foldr max (map fst (map field_Size64 fs)) 1)
       (pad_last (map field_Size64 fs)
          (foldl (\<lambda>off (a, s). round_to a off + s) 0 (map field_Size64 fs)))"
| "kind_Size64 (KPtr t) = 8"
| "kind_Size64 (KOther k) = 8"
| "field_Size64 (Field n t tag) = (Align64 t, Size64 t)"

text \<open>The surroundings of a program whose types have no \<open>Read\<close> and no \<open>Validate\<close> method.\<close>

definition plain_env :: env where
  "plain_env =
     \<lparr>as_Reader = (\<lambda>t. None), as_Validateable = (\<lambda>t. None), Size = (\<lambda>t. int (Size64 t))\<rparr>"

text \<open>A reader at the start of the given bytes, little-endian, with no call yet.\<close>

definition reader_on :: "byte list \<Rightarrow> BinaryReader" where
  "reader_on bs = \<lparr>Reader = \<lparr>data = bs, pos = 0, calls = []\<rparr>, Endianess = LittleEndian\<rparr>"

text \<open>The predeclared types the examples use.\<close>

definition uint8 :: gtype where "uint8 = T ''uint8'' KUint8"
definition uint16 :: gtype where "uint16 = T ''uint16'' KUint16"
definition uint32 :: gtype where "uint32 = T ''uint32'' KUint32"
definition int8 :: gtype where "int8 = T ''int8'' KInt8"
definition string_t :: gtype where "string_t = T ''string'' KString"
definition slice_of :: "gtype \<Rightarrow> gtype" where "slice_of t = T [] (KSlice t)"

section \<open>Example types and surroundings\<close>

text \<open>
  \<open>Magic\<close> is a named \<open>uint32\<close> with a \<open>Read\<close> method on the value itself, which stores 7.
  \<open>Header\<close> is a struct; in \<open>reading_validating_env\<close> its pointer has a \<open>Read\<close> method that
  reads nothing and a \<open>Validate\<close> method that always fails, in \<open>validating_env\<close> only the
  \<open>Validate\<close> method.
\<close>

definition Magic :: gtype where
  "Magic = T ''Magic'' KUint32"

definition magic_env :: env where
  "magic_env =
     \<lparr>as_Reader = (\<lambda>t. if t = Magic then Some (\<lambda>v r. (Inr (VUint 7), r)) else None),
      as_Validateable = (\<lambda>t. None), Size = (\<lambda>t. int (Size64 t))\<rparr>"

definition Header :: gtype where
  "Header = T ''Header'' (KStruct [Field ''Version'' uint8 []])"

definition invalid :: error where
  "invalid = HookError ''invalid header''"

definition reading_validating_env :: env where
  "reading_validating_env =
     \<lparr>as_Reader = (\<lambda>t. if t = pointer_to Header then Some (\<lambda>v r. (Inr v, r)) else None),
      as_Validateable = (\<lambda>t. if t = pointer_to Header then Some (\<lambda>v. Some invalid) else None),
      Size = (\<lambda>t. int (Size64 t))\<rparr>"

definition validating_env :: env where
  "validating_env =
     \<lparr>as_Reader = (\<lambda>t. None),
      as_Validateable = (\<lambda>t. if t = pointer_to Header then Some (\<lambda>v. Some invalid) else None),
      Size = (\<lambda>t. int (Size64 t))\<rparr>"

text \<open>
  \<open>Blob\<close> has a slice of \<open>uint8\<close> of length 4, \<open>SignedBlob\<close> a slice of \<open>int8\<close> of length
  2, \<open>Named\<close> a string of length 8.  \<open>Optional\<close> has three fields, each under a condition
  that is 0 for the zero value.
\<close>

definition Blob :: gtype where
  "Blob = T ''Blob'' (KStruct [Field ''A'' (slice_of uint8) [(''length'', ''4'')]])"

definition SignedBlob :: gtype where
  "SignedBlob = T ''SignedBlob'' (KStruct [Field ''A'' (slice_of int8) [(''length'', ''2'')]])"

definition Named :: gtype where
  "Named = T ''Named'' (KStruct [Field ''Name'' string_t [(''length'', ''8'')]])"

definition Optional_fields :: "field list" where
  "Optional_fields =
     [Field ''Flags'' uint32 [(''if'', ''0'')],
      Field ''Name'' string_t
        [(''if'', ''Flags == 1''), (''skip'', ''2''), (''length'', ''uint8''), (''align'', ''4'')],
      Field ''Body'' (slice_of uint16) [(''if'', ''Flags & 2''), (''length'', ''2'')]]"

definition Optional :: gtype where
  "Optional = T ''Optional'' (KStruct Optional_fields)"

text \<open>The zero value of \<open>Optional\<close>, and the bytes of \<open>"abc\0xxxx"\<close>.\<close>

definition Optional_zero :: "(string \<times> gval) list" where
  "Optional_zero = [(''Flags'', VUint 0), (''Name'', VString []), (''Body'', VList [])]"

definition abc_bytes :: "byte list" where
  "abc_bytes = [97, 98, 99, 0, 120, 120, 120, 120]"

text \<open>
  The rounding the specification names, \<open>round_up(consumed, A)\<close>: the least multiple of
  \<open>a\<close> that is not below \<open>n\<close>.
\<close>

definition round_up :: "int \<Rightarrow> int \<Rightarrow> int" where
  "round_up n a = ((n + a - 1) div a) * a"

text \<open>\<open>Hidden\<close> has an unexported string of length 8.\<close>

definition Hidden :: gtype where
  "Hidden = T ''Hidden'' (KStruct [Field ''name'' string_t [(''length'', ''8'')]])"

text \<open>
  \<open>Prefixed\<close> has a string with a 64-bit length prefix, a limit of 0 and an alignment of
  4; \<open>top_bit_bytes\<close> are a prefix with only the top bit set, and four more bytes.
\<close>

definition Prefixed :: gtype where
  "Prefixed = T ''Prefixed'' (KStruct
     [Field ''S'' string_t [(''length'', ''uint64''), (''max'', ''0''), (''align'', ''4'')]])"

definition top_bit_bytes :: "byte list" where
  "top_bit_bytes = [0, 0, 0, 0, 0, 0, 0, 128, 1, 2, 3, 4]"






text \<open>
  \<open>Words\<close> has two 16-bit numbers and \<open>Capped\<close> a string of at most 2 bytes, both to be
  aligned to 4.
\<close>

definition Words :: gtype where
  "Words = T ''Words'' (KStruct
     [Field ''W'' (slice_of uint16) [(''length'', ''2''), (''align'', ''4'')]])"

definition Capped :: gtype where
  "Capped = T ''Capped'' (KStruct [Field ''S'' string_t [(''max'', ''2''), (''align'', ''4'')]])"

text \<open>
  What the source saw between two states of the reader: the later record of calls
  continues the earlier one, and no seek it adds has a negative offset.
\<close>

definition forward_seek :: "call \<Rightarrow> bool" where
  "forward_seek c = (case c of ReadCall n \<Rightarrow> True | SeekCall offset \<Rightarrow> 0 \<le> offset)"

definition forward_only :: "BinaryReader \<Rightarrow> BinaryReader \<Rightarrow> bool" where
  "forward_only r r' =
     (take (length (calls (Reader r))) (calls (Reader r')) = calls (Reader r)
      \<and> list_all forward_seek (drop (length (calls (Reader r))) (calls (Reader r'))))"






text \<open>
  \<open>Pair\<close> has two bytes, the second after a skip of \<open>0-1\<close>; \<open>Skipping\<close> has a byte and
  a string of length 3, to be aligned to 4, after a skip of as many bytes as the first
  byte says.
\<close>

definition Pair :: gtype where
  "Pair = T ''Pair'' (KStruct [Field ''A'' uint8 [], Field ''B'' uint8 [(''skip'', ''0-1'')]])"







text \<open>The offsets of the seeks in a record of calls.\<close>

fun seek_offsets :: "call list \<Rightarrow> int list" where
  "seek_offsets [] = []"
| "seek_offsets (ReadCall n # cs) = seek_offsets cs"
| "seek_offsets (SeekCall off # cs) = off # seek_offsets cs"

text \<open>
  Between two states of the reader the source saw the seeks \<open>offs\<close>, and no other: the
  later record of calls continues the earlier one by calls whose seeks are \<open>offs\<close>.
\<close>

definition seeks_added :: "BinaryReader \<Rightarrow> BinaryReader \<Rightarrow> int list \<Rightarrow> bool" where
  "seeks_added r r' offs =
     (take (length (calls (Reader r))) (calls (Reader r')) = calls (Reader r)
      \<and> seek_offsets (drop (length (calls (Reader r))) (calls (Reader r'))) = offs)"


section \<open>Properties of the expression grammar\<close>

text \<open>What a rule leaves unread is a suffix of what it was given.\<close>

declare Grouping.simps [simp del]

lemma Spacing_opt_suffix: "suffix (Spacing_opt s) s"
  by (simp add: Spacing_opt_def suffix_dropWhile)

lemma literal_suffix: "literal tok s = Some r \<Longrightarrow> suffix r s"
  by (auto simp: literal_def suffix_drop split: if_splits)

lemma Identifier_suffix: "Identifier s = Some (i, r) \<Longrightarrow> suffix r s"
  by (auto simp: Identifier_def suffix_dropWhile suffix_ConsI split: list.splits if_splits)

lemma DotIdentifier_tail_suffix: "DotIdentifier_tail s = (is, r) \<Longrightarrow> suffix r s"
proof (induction s arbitrary: "is" r rule: DotIdentifier_tail.induct)
  case (1 s)
  note unf = DotIdentifier_tail.simps [of s]
  show ?case
  proof (cases s)
    case Nil
    with "1.prems" unf show ?thesis by simp
  next
    case (Cons c t)
    show ?thesis
    proof (cases "c = CHR ''.''")
      case False
      with Cons "1.prems" unf show ?thesis by simp
    next
      case True
      show ?thesis
      proof (cases "Identifier t")
        case None
        with True Cons "1.prems" unf show ?thesis by simp
      next
        case (Some p)
        obtain i r' where p: "p = (i, r')" by (cases p)
        obtain js r'' where tl: "DotIdentifier_tail r' = (js, r'')"
          by (cases "DotIdentifier_tail r'")
        from "1.IH" [OF Cons True Some p [symmetric] tl]
        have a: "suffix r'' r'" .
        from Identifier_suffix Some p have b: "suffix r' t" by simp
        from "1.prems" Cons True Some p tl unf have "r = r''"
          by simp
        with a b Cons show ?thesis
          by (auto intro: suffix_ConsI suffix_order.trans)
      qed
    qed
  qed
qed

lemma Constant_rule_suffix: "Constant_rule s = Some (c, r) \<Longrightarrow> suffix r s"
  by (auto simp: Constant_rule_def suffix_dropWhile suffix_ConsI split: list.splits if_splits)

lemma DotIdentifier_rule_suffix: "DotIdentifier_rule s = Some (is, r) \<Longrightarrow> suffix r s"
  by (auto simp: DotIdentifier_rule_def split: option.splits prod.splits
      dest!: Identifier_suffix DotIdentifier_tail_suffix intro: suffix_order.trans)

lemma Grouping_Op_from_suffix:
  "Paren f s = Match n r \<Longrightarrow> suffix r s"
  "Grouping f s = Match n r \<Longrightarrow> suffix r s"
  "Op_from f alts s = Match n r \<Longrightarrow> suffix r s"
proof (induction f s and f s and f alts s arbitrary: n r and n r and n r rule: Paren_Grouping_Op_from.induct)
  case (1 fuel)
  then show ?case by simp
next
  case (2 fuel c t)
  from "2.prems" obtain fuel' r2 where f: "fuel = Suc fuel'" and c: "c = CHR ''(''"
    and o: "Op_from fuel' Op_alternatives t = Match n r2" and l: "literal '')'' r2 = Some r"
    by (auto split: if_splits nat.splits presult.splits option.splits)
  from "2.IH" [OF c f o] literal_suffix [OF l] show ?case
    by (auto intro: suffix_ConsI suffix_order.trans)
next
  case (3 fuel s)
  note sp = Spacing_opt_suffix [of s]
  show ?case
  proof (cases "Paren fuel (Spacing_opt s)")
    case OutOfFuel
    with "3.prems" show ?thesis by (simp add: Grouping.simps)
  next
    case (Match m r3)
    with "3.prems" have "r = Spacing_opt r3" by (simp add: Grouping.simps)
    with "3.IH" [OF Match] sp Spacing_opt_suffix [of r3] show ?thesis
      by (auto intro: suffix_order.trans)
  next
    case NoMatch
    show ?thesis
    proof (cases "Constant_rule (Spacing_opt s)")
      case (Some p)
      obtain c r' where p: "p = (c, r')" by (cases p)
      with Some NoMatch "3.prems" have "r = Spacing_opt r'" by (simp add: Grouping.simps)
      with Some p Constant_rule_suffix [of "Spacing_opt s" c r'] sp Spacing_opt_suffix [of r']
      show ?thesis by (auto intro: suffix_order.trans)
    next
      case None
      with NoMatch "3.prems" obtain js r' where d: "DotIdentifier_rule (Spacing_opt s) = Some (js, r')"
        and "r = Spacing_opt r'"
        by (auto simp: Grouping.simps split: option.splits)
      with DotIdentifier_rule_suffix [OF d] sp Spacing_opt_suffix [of r']
      show ?thesis by (auto intro: suffix_order.trans)
    qed
  qed
next
  case (4 fuel s)
  then show ?case by simp
next
  case (5 fuel tag tok alts s)
  show ?case
  proof (cases "Grouping fuel s")
    case OutOfFuel
    with "5.prems" show ?thesis by simp
  next
    case NoMatch
    with "5.prems" "5.IH"(2) show ?thesis by simp
  next
    case (Match l r1)
    note g1 = "5.IH"(1) [OF Match]
    show ?thesis
    proof (cases "literal tok r1")
      case None
      with Match "5.prems" "5.IH"(3) show ?thesis by simp
    next
      case (Some r2)
      note l = literal_suffix [OF Some]
      show ?thesis
      proof (cases "Grouping fuel r2")
        case OutOfFuel
        with Match Some "5.prems" show ?thesis by simp
      next
        case NoMatch
        with Match Some "5.prems" "5.IH"(5) show ?thesis by simp
      next
        case (Match rr r3)
        with \<open>Grouping fuel s = Match l r1\<close> Some "5.prems" have "r = r3" by simp
        with "5.IH"(4) [OF \<open>Grouping fuel s = Match l r1\<close> Some Match] g1 l
        show ?thesis by (auto intro: suffix_order.trans)
      qed
    qed
  qed
qed

text \<open>The length of the input is fuel enough: \<open>Parse\<close> never runs out of it.\<close>

lemma Op_from_fuel:
  assumes g: "\<And>t. length t \<le> f \<Longrightarrow> Grouping f t \<noteq> OutOfFuel"
  shows "length s \<le> f \<Longrightarrow> Op_from f alts s \<noteq> OutOfFuel"
proof (induction alts)
  case Nil
  show ?case by simp
next
  case (Cons a alts)
  obtain tag tok where a: "a = (tag, tok)" by (cases a)
  show ?case
  proof (cases "Grouping f s")
    case OutOfFuel
    with g [OF Cons.prems] show ?thesis by simp
  next
    case NoMatch
    with a Cons show ?thesis by simp
  next
    case (Match l r1)
    show ?thesis
    proof (cases "literal tok r1")
      case None
      with Match a Cons show ?thesis by simp
    next
      case (Some r2)
      from Grouping_Op_from_suffix(2) [OF Match] literal_suffix [OF Some]
      have "suffix r2 s" by (auto intro: suffix_order.trans)
      then have "length r2 \<le> f" using Cons.prems by (auto dest: suffix_length_le)
      from g [OF this] Match Some a Cons show ?thesis
        by (cases "Grouping f r2") simp_all
    qed
  qed
qed

lemma Grouping_fuel: "length s \<le> f \<Longrightarrow> Grouping f s \<noteq> OutOfFuel"
proof (induction f arbitrary: s)
  case 0
  then show ?case by (simp add: Grouping.simps Spacing_opt_def split: option.splits)
next
  case (Suc f)
  have "Paren (Suc f) (Spacing_opt s) \<noteq> OutOfFuel"
  proof (cases "Spacing_opt s")
    case Nil
    then show ?thesis by simp
  next
    case (Cons c t)
    with Spacing_opt_suffix [of s] have "length (c # t) \<le> length s"
      by (auto dest: suffix_length_le)
    with Suc.prems have "length t \<le> f" by simp
    from Op_from_fuel [OF Suc.IH this, of Op_alternatives] Cons show ?thesis
      by (cases "Op_from f Op_alternatives t") (simp_all split: option.splits)
  qed
  then show ?case
    by (cases "Paren (Suc f) (Spacing_opt s)") (simp_all add: Grouping.simps split: option.splits)
qed

lemma Parse_fuel: "Parse s \<noteq> OutOfFuel"
proof -
  have g: "Grouping (length s) s \<noteq> OutOfFuel" by (rule Grouping_fuel) simp
  have o: "Op (length s) s \<noteq> OutOfFuel"
    unfolding Op_def by (rule Op_from_fuel [OF Grouping_fuel]) simp_all
  show ?thesis
    using g o
    by (cases "Op (length s) s"; cases "Grouping (length s) s")
       (simp_all add: Parse_def Expression_def)
qed

lemma Grouping_leaf:
  assumes "CHR ''('' \<notin> set s" and "Grouping f s = Match n r"
  shows "is_leaf n"
proof -
  from assms(1) have "CHR ''('' \<notin> set (Spacing_opt s)"
    by (auto simp: Spacing_opt_def dest: set_dropWhileD)
  then have "Paren f (Spacing_opt s) = NoMatch"
    by (cases "Spacing_opt s") auto
  with assms(2) show ?thesis
    by (auto simp: Grouping.simps split: option.splits)
qed

lemma Op_from_leaves:
  "CHR ''('' \<notin> set s \<Longrightarrow> Op_from f alts s = Match n r \<Longrightarrow>
     \<exists>t a b. n = Binary t a b \<and> is_leaf a \<and> is_leaf b"
proof (induction alts)
  case Nil
  then show ?case by simp
next
  case (Cons x alts)
  obtain tag tok where x: "x = (tag, tok)" by (cases x)
  show ?case
  proof (cases "Grouping f s")
    case OutOfFuel
    with x Cons.prems show ?thesis by simp
  next
    case NoMatch
    with x Cons show ?thesis by simp
  next
    case (Match l r1)
    show ?thesis
    proof (cases "literal tok r1")
      case None
      with Match x Cons show ?thesis by simp
    next
      case (Some r2)
      from Grouping_Op_from_suffix(2) [OF Match] literal_suffix [OF Some]
      have "suffix r2 s" by (auto intro: suffix_order.trans)
      with Cons.prems(1) have np: "CHR ''('' \<notin> set r2"
        by (auto dest: set_mono_suffix)
      show ?thesis
      proof (cases "Grouping f r2")
        case OutOfFuel
        with \<open>Grouping f s = Match l r1\<close> Some x Cons.prems show ?thesis by simp
      next
        case NoMatch
        with \<open>Grouping f s = Match l r1\<close> Some x Cons show ?thesis by simp
      next
        case (Match rr r3)
        with \<open>Grouping f s = Match l r1\<close> Some x Cons.prems have "n = Binary tag l rr" by simp
        with Grouping_leaf [OF Cons.prems(1) \<open>Grouping f s = Match l r1\<close>]
          Grouping_leaf [OF np Match]
        show ?thesis by simp
      qed
    qed
  qed
qed

lemma Parse_leaves:
  assumes "CHR ''('' \<notin> set s" and "Parse s = Match (Binary t a b) r"
  shows "is_leaf a \<and> is_leaf b"
proof (cases "Op (length s) s")
  case OutOfFuel
  with assms(2) show ?thesis by (simp add: Parse_def Expression_def)
next
  case NoMatch
  with assms(2) obtain r' where "Grouping (length s) s = Match (Binary t a b) r'"
    by (cases "Grouping (length s) s") (auto simp: Parse_def Expression_def split: if_splits)
  from Grouping_leaf [OF assms(1) this] show ?thesis by simp
next
  case (Match n r')
  with assms(2) have "n = Binary t a b"
    by (auto simp: Parse_def Expression_def split: if_splits)
  with Op_from_leaves [OF assms(1) Match [unfolded Op_def]] show ?thesis by auto
qed


lemmas parse_eval =
  Parse_def Expression_def Op_def Op_alternatives_def Grouping.simps Spacing_opt_def
  is_space_def Constant_rule_def is_digit_def is_hex_def literal_def DotIdentifier_rule_def
  DotIdentifier_tail.simps Identifier_def is_upper_def is_ident_char_def

text \<open>
  C8.  The grammar has no implicit operator precedence: \<open>1+2+3\<close> does not parse (the
  result is a failed match, not a lack of fuel), \<open>(1+2)+3\<close> parses to the nested
  tree, and whenever a text without an opening parenthesis parses to a binary
  operation, both operands are leaves: a second binary operation needs parentheses.
\<close>

theorem C8_no_implicit_precedence:
  "Parse ''1+2+3'' = NoMatch
   \<and> Parse ''(1+2)+3''
       = Match (Binary Add (Binary Add (Constant ''1'') (Constant ''2'')) (Constant ''3'')) []
   \<and> (Parse s = Match (Binary t a b) rest \<and> CHR ''('' \<notin> set s \<longrightarrow> is_leaf a \<and> is_leaf b)"
proof (intro conjI impI)
  show "Parse ''1+2+3'' = NoMatch"
    by (simp add: parse_eval)
  show "Parse ''(1+2)+3''
       = Match (Binary Add (Binary Add (Constant ''1'') (Constant ''2'')) (Constant ''3'')) []"
    by (simp add: parse_eval)
next
  assume h: "Parse s = Match (Binary t a b) rest \<and> CHR ''('' \<notin> set s"
  then show "is_leaf a" using Parse_leaves [of s t a b rest] by simp
  from h show "is_leaf b" using Parse_leaves [of s t a b rest] by simp
qed

theorem C8_no_implicit_precedence_witness:
  "Parse ''1+2'' = Match (Binary Add (Constant ''1'') (Constant ''2'')) []
   \<and> CHR ''('' \<notin> set ''1+2''
   \<and> is_leaf (Constant ''1'') \<and> is_leaf (Constant ''2'')"
proof -
  have p: "Parse ''1+2'' = Match (Binary Add (Constant ''1'') (Constant ''2'')) []"
    by (simp add: parse_eval)
  have n: "CHR ''('' \<notin> set ''1+2''" by simp
  from C8_no_implicit_precedence [of "''1+2''" Add "Constant ''1''" "Constant ''2''" "[]"] p n
  show ?thesis by simp
qed

section \<open>Properties of the decode engine\<close>

text \<open>The equations that evaluate a decode on concrete input.\<close>


lemmas engine_eval =
  ReadInterface_def ReadInterface_addr.simps ReadInterface_elem.simps read_kind.simps
  read_elems.simps read_fields.simps read_field_value.simps
  field_if_def field_skip_def field_length_def string_field_def field_align_def align_seek_def
  assignable_from_bytes_def pointer_to_def cstring_loop.simps is_exported_def is_upper_def
  unexported_field_def unexported_interface_def through_float64_def
  eval_tag_def Get_def wrap64_def MaxInt32_def
  Seek_def Read_def source_Read_def source_Seek_def
  Uint8_def Uint16_def Uint32_def Uint64_def Int8_def Int16_def Int32_def Int64_def
  Float32_def Float64_def bytes_value_def
  constant_value_def number_value_def digit_value_def apply_op_def
  plain_env_def reader_on_def uint8_def uint16_def uint32_def int8_def string_t_def slice_of_def

text \<open>
  The call of \<open>ReadInterface\<close> on the address of a value of type \<open>t\<close> is the
  \<open>ReadInterface_addr\<close> of the recursion.
\<close>

lemma ReadInterface_pointer_to:
  "ReadInterface env (pointer_to t) v r = ReadInterface_addr env t v r"
  by (simp add: ReadInterface_def ReadInterface_addr.simps pointer_to_def split: option.splits)

text \<open>
  C9.  \<open>ReadInterface\<close> hands a destination that implements \<open>Reader\<close> to its \<open>Read\<close>
  method before it looks at the destination's kind: the result is the method's, also
  for a destination that is not a pointer.  Without a \<open>Read\<close> method a destination that
  is not a pointer gets "Expected a pointer"; and when the call on a destination that is
  not a pointer ends in that error and the \<open>Read\<close> method, if there is one, did not
  return it itself, the destination has no \<open>Read\<close> method.
\<close>

theorem C9_custom_reader_before_pointer_check:
  "(as_Reader env t = Some ri \<longrightarrow> ReadInterface env t v r = ri v r)
   \<and> (as_Reader env t = None \<and> (\<forall>e. tkind t \<noteq> KPtr e)
        \<longrightarrow> ReadInterface env t v r = (Inl NotPointer, r))
   \<and> (fst (ReadInterface env t v r) = Inl NotPointer \<and> (\<forall>e. tkind t \<noteq> KPtr e)
        \<and> (\<forall>ri. as_Reader env t = Some ri \<longrightarrow> fst (ri v r) \<noteq> Inl NotPointer)
        \<longrightarrow> as_Reader env t = None)"
  by (cases "tkind t") (auto simp: ReadInterface_def split: option.splits)

theorem C9_custom_reader_before_pointer_check_witness:
  "as_Reader magic_env Magic = Some (\<lambda>v r. (Inr (VUint 7), r))
   \<and> ReadInterface magic_env Magic (VUint 0) (reader_on []) = (Inr (VUint 7), reader_on [])
   \<and> as_Reader plain_env uint32 = None \<and> (\<forall>e. tkind uint32 \<noteq> KPtr e)
   \<and> ReadInterface plain_env uint32 (VUint 0) (reader_on []) = (Inl NotPointer, reader_on [])"
proof -
  have a: "as_Reader magic_env Magic = Some (\<lambda>v r. (Inr (VUint 7), r))"
    by (simp add: magic_env_def)
  have b: "as_Reader plain_env uint32 = None \<and> (\<forall>e. tkind uint32 \<noteq> KPtr e)"
    by (simp add: plain_env_def uint32_def)
  from a b
    C9_custom_reader_before_pointer_check
      [of magic_env Magic "\<lambda>v r. (Inr (VUint 7), r)" "VUint 0" "reader_on []"]
    C9_custom_reader_before_pointer_check
      [of plain_env uint32 "\<lambda>v r. (Inr (VUint 7), r)" "VUint 0" "reader_on []"]
  show ?thesis by simp
qed

text \<open>
  C1.  At a destination with both a \<open>Read\<close> and a \<open>Validate\<close> method, \<open>ReadInterface\<close>
  returns what \<open>Read\<close> returns and never calls \<open>Validate\<close>: the decode of a \<open>Header\<close> whose
  \<open>Validate\<close> fails succeeds.  With the same \<open>Validate\<close> method and no \<open>Read\<close> method the
  decode fails with the validation error.
\<close>

theorem C1_validate_skipped_after_custom_read:
  "ReadInterface reading_validating_env (pointer_to Header) (VStruct [(''Version'', VUint 0)])
       (reader_on [1])
     = (Inr (VStruct [(''Version'', VUint 0)]), reader_on [1])
   \<and> fst (ReadInterface validating_env (pointer_to Header) (VStruct [(''Version'', VUint 0)])
       (reader_on [1]))
     = Inl invalid"
  by (simp add: reading_validating_env_def validating_env_def Header_def engine_eval)

text \<open>A read of \<open>n\<close> bytes that the source has: the bytes from the position on, which moves by \<open>n\<close>.\<close>

lemma Read_available:
  assumes "0 \<le> n" and "pos (Reader r) + nat n \<le> length (data (Reader r))"
  shows "\<exists>r'. Read n r = (Inr (take (nat n) (drop (pos (Reader r)) (data (Reader r)))), r')
              \<and> pos (Reader r') = pos (Reader r) + nat n
              \<and> data (Reader r') = data (Reader r)
              \<and> calls (Reader r') = calls (Reader r) @ (if n = 0 then [] else [ReadCall (nat n)])"
proof (cases "n = 0")
  case True
  then show ?thesis by (simp add: Read_def)
next
  case False
  with assms have "pos (Reader r) < length (data (Reader r))" by simp
  with False assms show ?thesis
    by (auto simp: Read_def source_Read_def Let_def min_def)
qed

lemma replicate_numeral: "replicate (numeral k) x = x # replicate (pred_numeral k) x"
  by (simp add: numeral_eq_Suc)

text \<open>
  C10.  A slice field whose elements are of kind \<open>Int8\<close> never decodes: whatever its
  length, the result is an error; with a length of at least 1 and that many bytes in
  the source, the raw read succeeds and the store of its \<open>[]uint8\<close> into the field
  panics.
\<close>

theorem C10_int8_slice_never_decodes:
  assumes "tkind et = KInt8"
  shows "(\<exists>e r'. read_field_value env (Field fn (T tn (KSlice et)) tag) v sz ctx r = (Inl e, r'))
    \<and> (1 \<le> sz \<and> pos (Reader r) + nat sz \<le> length (data (Reader r)) \<longrightarrow>
         (\<exists>r'. read_field_value env (Field fn (T tn (KSlice et)) tag) v sz ctx r
                = (Inl (Panic ''reflect.Set: value of type []uint8 is not assignable''), r')
              \<and> pos (Reader r') = pos (Reader r) + nat sz))"
proof -
  have na: "\<not> assignable_from_bytes (T tn (KSlice et))"
    using assms by (auto simp: assignable_from_bytes_def)
  have a: "\<exists>e r'. read_field_value env (Field fn (T tn (KSlice et)) tag) v sz ctx r = (Inl e, r')"
    using assms na
    by (cases "Read sz r"; cases "fst (Read sz r)")
       (auto simp: read_field_value.simps split: prod.splits sum.splits)
  have b: "\<exists>r'. read_field_value env (Field fn (T tn (KSlice et)) tag) v sz ctx r
                = (Inl (Panic ''reflect.Set: value of type []uint8 is not assignable''), r')
              \<and> pos (Reader r') = pos (Reader r) + nat sz"
    if h: "1 \<le> sz \<and> pos (Reader r) + nat sz \<le> length (data (Reader r))"
  proof -
    from h Read_available [of sz r] obtain r' bs where
      "Read sz r = (Inr bs, r')" and "pos (Reader r') = pos (Reader r) + nat sz"
      by auto
    with h assms na show ?thesis
      by (simp add: read_field_value.simps)
  qed
  from a b show ?thesis by blast
qed

theorem C10_int8_slice_never_decodes_witness:
  "tkind int8 = KInt8
   \<and> (1::int) \<le> 2 \<and> pos (Reader (reader_on [1, 2, 3])) + nat 2 \<le> length (data (Reader (reader_on [1, 2, 3])))
   \<and> fst (read_field_value plain_env (Field ''A'' (slice_of int8) [(''length'', ''2'')])
            (VList []) 2 (VStruct [(''A'', VList [])]) (reader_on [1, 2, 3]))
       = Inl (Panic ''reflect.Set: value of type []uint8 is not assignable'')
   \<and> fst (ReadInterface plain_env (pointer_to SignedBlob) (VStruct [(''A'', VList [])])
            (reader_on [1, 2, 3]))
       = Inl (Panic ''reflect.Set: value of type []uint8 is not assignable'')"
proof -
  have k: "tkind int8 = KInt8" by (simp add: int8_def)
  have h: "(1::int) \<le> 2 \<and> pos (Reader (reader_on [1, 2, 3])) + nat 2
             \<le> length (data (Reader (reader_on [1, 2, 3])))"
    by (simp add: reader_on_def)
  from C10_int8_slice_never_decodes [OF k, of plain_env "''A''" "[]" "[(''length'', ''2'')]"
      "VList []" 2 "VStruct [(''A'', VList [])]" "reader_on [1, 2, 3]"] h
  have "fst (read_field_value plain_env (Field ''A'' (slice_of int8) [(''length'', ''2'')])
            (VList []) 2 (VStruct [(''A'', VList [])]) (reader_on [1, 2, 3]))
       = Inl (Panic ''reflect.Set: value of type []uint8 is not assignable'')"
    by (auto simp: slice_of_def)
  moreover have "fst (ReadInterface plain_env (pointer_to SignedBlob) (VStruct [(''A'', VList [])])
            (reader_on [1, 2, 3]))
       = Inl (Panic ''reflect.Set: value of type []uint8 is not assignable'')"
    by (simp add: SignedBlob_def engine_eval parse_eval)
  ultimately show ?thesis using k h by simp
qed

text \<open>
  C4.  The raw read of lines 283-287 is taken for elements of kind \<open>Int8\<close> only.  A
  slice of \<open>uint8\<close> of length 4 is decoded element by element: the source gets four
  reads of one byte, not one read of four.  The four bytes are consumed and nothing
  else.
\<close>

theorem C4_uint8_slice_read_per_element:
  "ReadInterface plain_env (pointer_to Blob) (VStruct [(''A'', VList [])])
       (reader_on [1, 2, 3, 4, 5])
     = (Inr (VStruct [(''A'', VList [VUint 1, VUint 2, VUint 3, VUint 4])]),
        \<lparr>Reader = \<lparr>data = [1, 2, 3, 4, 5], pos = 4,
                    calls = [ReadCall 1, ReadCall 1, ReadCall 1, ReadCall 1]\<rparr>,
         Endianess = LittleEndian\<rparr>)"
  by (simp add: Blob_def engine_eval parse_eval replicate_numeral)

text \<open>A struct all of whose remaining fields have a condition that is 0 is left as it is.\<close>

lemma read_fields_condition_zero:
  assumes "Get (ftag f) ''if'' \<noteq> []"
    and "eval_tag (VStruct (done @ (n, v) # todo)) (Get (ftag f) ''if'') = Inr 0"
  shows "read_fields env done (f # fs) ((n, v) # todo) r
           = read_fields env (done @ [(n, v)]) fs todo r"
  using assms by (simp add: read_fields.simps field_if_def)

lemma read_fields_all_conditions_zero:
  "length todo = length fs \<Longrightarrow>
   \<forall>f \<in> set fs. Get (ftag f) ''if'' \<noteq> []
       \<and> eval_tag (VStruct (done @ todo)) (Get (ftag f) ''if'') = Inr 0 \<Longrightarrow>
   read_fields env done fs todo r = (Inr (done @ todo), r)"
proof (induction fs arbitrary: "done" todo)
  case Nil
  then show ?case by (simp add: read_fields.simps)
next
  case (Cons f fs)
  from Cons.prems(1) obtain n v todo' where t: "todo = (n, v) # todo'" and
    l: "length todo' = length fs"
    by (cases todo) auto
  from Cons.prems(2) t have
    "read_fields env done (f # fs) ((n, v) # todo') r
       = read_fields env (done @ [(n, v)]) fs todo' r"
    by (intro read_fields_condition_zero) simp_all
  moreover from Cons.prems(2) t have
    "\<forall>f \<in> set fs. Get (ftag f) ''if'' \<noteq> []
       \<and> eval_tag (VStruct ((done @ [(n, v)]) @ todo')) (Get (ftag f) ''if'') = Inr 0"
    by simp
  from Cons.IH [OF l this] have
    "read_fields env (done @ [(n, v)]) fs todo' r = (Inr (done @ todo), r)"
    using t by simp
  ultimately show ?case using t by simp
qed

text \<open>
  C6.  A field whose \<open>if\<close> directive evaluates to 0 is passed over: the loop goes on to
  the next field with the same reader (no byte read, no call to the source, so no
  skip, length or alignment processing) and with the field's value as it was.  A struct
  all of whose fields have such a condition decodes to itself from an unchanged reader.
\<close>

theorem C6_condition_zero_skips_field:
  "(Get (ftag f) ''if'' \<noteq> []
      \<and> eval_tag (VStruct (done @ (n, v) # todo)) (Get (ftag f) ''if'') = Inr 0
     \<longrightarrow> read_fields env done (f # fs) ((n, v) # todo) r
           = read_fields env (done @ [(n, v)]) fs todo r)
   \<and> (length vals = length fs'
      \<and> (\<forall>f \<in> set fs'. Get (ftag f) ''if'' \<noteq> []
            \<and> eval_tag (VStruct vals) (Get (ftag f) ''if'') = Inr 0)
     \<longrightarrow> read_kind env (KStruct fs') (VStruct vals) r = (Inr (VStruct vals), r))"
proof (intro conjI impI)
  assume "Get (ftag f) ''if'' \<noteq> []
      \<and> eval_tag (VStruct (done @ (n, v) # todo)) (Get (ftag f) ''if'') = Inr 0"
  then show "read_fields env done (f # fs) ((n, v) # todo) r
           = read_fields env (done @ [(n, v)]) fs todo r"
    by (simp add: read_fields_condition_zero)
next
  assume h: "length vals = length fs'
      \<and> (\<forall>f \<in> set fs'. Get (ftag f) ''if'' \<noteq> []
            \<and> eval_tag (VStruct vals) (Get (ftag f) ''if'') = Inr 0)"
  then have "read_fields env [] fs' vals r = (Inr ([] @ vals), r)"
    by (intro read_fields_all_conditions_zero) simp_all
  then show "read_kind env (KStruct fs') (VStruct vals) r = (Inr (VStruct vals), r)"
    by (simp add: read_kind.simps)
qed

theorem C6_condition_zero_skips_field_witness:
  "length Optional_zero = length Optional_fields
   \<and> map (\<lambda>f. Get (ftag f) ''if'') Optional_fields = [''0'', ''Flags == 1'', ''Flags & 2'']
   \<and> eval_tag (VStruct Optional_zero) ''0'' = Inr 0
   \<and> eval_tag (VStruct Optional_zero) ''Flags == 1'' = Inr 0
   \<and> eval_tag (VStruct Optional_zero) ''Flags & 2'' = Inr 0
   \<and> read_kind plain_env (KStruct Optional_fields) (VStruct Optional_zero) (reader_on [1, 2, 3])
       = (Inr (VStruct Optional_zero), reader_on [1, 2, 3])
   \<and> read_fields plain_env [] Optional_fields Optional_zero (reader_on [1, 2, 3])
       = read_fields plain_env [(''Flags'', VUint 0)] (tl Optional_fields) (tl Optional_zero)
           (reader_on [1, 2, 3])
   \<and> ReadInterface plain_env (pointer_to Optional) (VStruct Optional_zero) (reader_on [1, 2, 3])
       = (Inr (VStruct Optional_zero), reader_on [1, 2, 3])"
proof -
  have l: "length Optional_zero = length Optional_fields"
    by (simp add: Optional_zero_def Optional_fields_def)
  have c: "\<forall>f \<in> set Optional_fields. Get (ftag f) ''if'' \<noteq> []
         \<and> eval_tag (VStruct Optional_zero) (Get (ftag f) ''if'') = Inr 0"
    by (simp add: Optional_zero_def Optional_fields_def Get_def eval_tag_def parse_eval
          constant_value_def number_value_def digit_value_def apply_op_def wrap64_def)
  have c1: "Get (ftag (hd Optional_fields)) ''if'' \<noteq> []
      \<and> eval_tag (VStruct ([] @ (''Flags'', VUint 0) # tl Optional_zero))
            (Get (ftag (hd Optional_fields)) ''if'') = Inr 0"
    by (simp add: Optional_zero_def Optional_fields_def Get_def eval_tag_def parse_eval
          constant_value_def number_value_def digit_value_def apply_op_def wrap64_def)
  note inst = C6_condition_zero_skips_field
      [of "hd Optional_fields" "[]" "''Flags''" "VUint 0" "tl Optional_zero" plain_env
          "tl Optional_fields" "reader_on [1, 2, 3]" Optional_zero Optional_fields]
  from inst l c have k: "read_kind plain_env (KStruct Optional_fields) (VStruct Optional_zero)
       (reader_on [1, 2, 3]) = (Inr (VStruct Optional_zero), reader_on [1, 2, 3])"
    by blast
  from inst c1 have s: "read_fields plain_env [] Optional_fields Optional_zero (reader_on [1, 2, 3])
       = read_fields plain_env [(''Flags'', VUint 0)] (tl Optional_fields) (tl Optional_zero)
           (reader_on [1, 2, 3])"
    by (simp add: Optional_zero_def Optional_fields_def)
  have "ReadInterface plain_env (pointer_to Optional) (VStruct Optional_zero) (reader_on [1, 2, 3])
       = (Inr (VStruct Optional_zero), reader_on [1, 2, 3])"
    using k
    by (simp add: Optional_def ReadInterface_def ReadInterface_elem.simps pointer_to_def
          plain_env_def)
  moreover have "map (\<lambda>f. Get (ftag f) ''if'') Optional_fields
      = [''0'', ''Flags == 1'', ''Flags & 2'']"
    by (simp add: Optional_fields_def Get_def)
  moreover from c have "eval_tag (VStruct Optional_zero) ''0'' = Inr 0
    \<and> eval_tag (VStruct Optional_zero) ''Flags == 1'' = Inr 0
    \<and> eval_tag (VStruct Optional_zero) ''Flags & 2'' = Inr 0"
    by (simp add: Optional_fields_def Get_def)
  ultimately show ?thesis using l k s by blast
qed

text \<open>
  C7.  An exported string field whose length resolved to \<open>n\<close>, not negative, with \<open>n\<close>
  bytes in the source, reads exactly those \<open>n\<close> bytes and is their prefix before the
  first null byte; nothing is an error.
\<close>

theorem C7_string_with_length:
  assumes "is_exported fn" and "0 \<le> n"
    and "pos (Reader r) + nat n \<le> length (data (Reader r))"
  shows "\<exists>r'. read_field_value env (Field fn (T tn KString) tag) v n ctx r
             = (Inr (VString (takeWhile (\<lambda>b. b \<noteq> 0)
                        (take (nat n) (drop (pos (Reader r)) (data (Reader r))))), n), r')
           \<and> pos (Reader r') = pos (Reader r) + nat n"
proof -
  from Read_available [OF assms(2,3)] obtain r' where
    "Read n r = (Inr (take (nat n) (drop (pos (Reader r)) (data (Reader r)))), r')"
    and "pos (Reader r') = pos (Reader r) + nat n"
    by blast
  with assms(1,2) show ?thesis
    by (simp add: read_field_value.simps string_field_def)
qed

theorem C7_string_with_length_witness:
  "is_exported ''Name'' \<and> (0::int) \<le> 8
   \<and> pos (Reader (reader_on abc_bytes)) + nat 8 \<le> length (data (Reader (reader_on abc_bytes)))
   \<and> (\<exists>r'. read_field_value plain_env (Field ''Name'' string_t [(''length'', ''8'')])
               (VString []) 8 (VStruct [(''Name'', VString [])]) (reader_on abc_bytes)
             = (Inr (VString [97, 98, 99], 8), r')
           \<and> pos (Reader r') = 8)
   \<and> (\<exists>r'. ReadInterface plain_env (pointer_to Named) (VStruct [(''Name'', VString [])])
               (reader_on abc_bytes)
             = (Inr (VStruct [(''Name'', VString [97, 98, 99])]), r')
           \<and> pos (Reader r') = 8)"
proof -
  have h0: "is_exported ''Name''" by (simp add: is_exported_def is_upper_def)
  have h1: "(0::int) \<le> 8" by simp
  have h2: "pos (Reader (reader_on abc_bytes)) + nat 8 \<le> length (data (Reader (reader_on abc_bytes)))"
    by (simp add: reader_on_def abc_bytes_def)
  have e: "takeWhile (\<lambda>b. b \<noteq> 0)
             (take (nat 8) (drop (pos (Reader (reader_on abc_bytes))) (data (Reader (reader_on abc_bytes)))))
           = [97, 98, 99 :: byte]"
    by (simp add: reader_on_def abc_bytes_def)
  have p: "pos (Reader (reader_on abc_bytes)) + nat 8 = 8"
    by (simp add: reader_on_def)
  from C7_string_with_length [OF h0 h1 h2, of plain_env "''string''" "[(''length'', ''8'')]"
      "VString []" "VStruct [(''Name'', VString [])]"]
  have a: "\<exists>r'. read_field_value plain_env (Field ''Name'' string_t [(''length'', ''8'')])
               (VString []) 8 (VStruct [(''Name'', VString [])]) (reader_on abc_bytes)
             = (Inr (VString [97, 98, 99], 8), r')
           \<and> pos (Reader r') = 8"
    unfolding e p by (simp add: string_t_def)
  have b: "\<exists>r'. ReadInterface plain_env (pointer_to Named) (VStruct [(''Name'', VString [])])
               (reader_on abc_bytes)
             = (Inr (VStruct [(''Name'', VString [97, 98, 99])]), r')
           \<and> pos (Reader r') = 8"
    by (simp add: Named_def abc_bytes_def engine_eval parse_eval)
  from h0 h1 h2 a b show ?thesis by blast
qed

theorem C7_counterexample:
  "\<not> is_exported ''name''
   \<and> ReadInterface plain_env (pointer_to Hidden) (VStruct [(''name'', VString [])])
         (reader_on abc_bytes)
       = (Inl (unexported_field ''SetString''),
          \<lparr>Reader = \<lparr>data = abc_bytes, pos = 8, calls = [ReadCall 8]\<rparr>,
           Endianess = LittleEndian\<rparr>)"
  by (simp add: Hidden_def abc_bytes_def engine_eval parse_eval)

text \<open>Within the range of \<open>int\<close> nothing wraps.\<close>

lemma wrap64_id: "- (2 ^ 63) \<le> x \<Longrightarrow> x < 2 ^ 63 \<Longrightarrow> wrap64 x = x"
  by (simp add: wrap64_def)

lemma and_not_mask_int: "(x::int) AND NOT (mask k) = x div 2 ^ k * 2 ^ k"
proof -
  have "x AND NOT (mask k) = push_bit k (drop_bit k x)"
    by (rule bit_eqI) (auto simp: bit_simps)
  then show ?thesis
    by (simp add: push_bit_eq_mult drop_bit_eq_div)
qed

lemma wrap64_minus_exp: "wrap64 (x - 2 ^ 64) = wrap64 x"
proof -
  have "(x - 2 ^ 64 + 2 ^ 63) mod 2 ^ 64 = (x + 2 ^ 63 - 2 ^ 64) mod (2 ^ 64 :: int)"
    by (simp add: algebra_simps)
  also have "\<dots> = (x + 2 ^ 63) mod 2 ^ 64"
    by (rule minus_mod_self2)
  finally show ?thesis
    by (simp add: wrap64_def)
qed

lemma align_seek_below:
  assumes lt: "A < sz" and A: "A = 2 ^ k" and hi: "sz < 2 ^ 63"
  shows "align_seek A sz = round_up sz A - sz"
proof -
  define M :: int where "M = 2 ^ 64"
  from A have A1: "1 \<le> A" by simp
  from lt hi have A2: "A < 2 ^ 63" by simp
  have "k < 63"
  proof (rule ccontr)
    assume "\<not> k < 63"
    then have "(2::int) ^ 63 \<le> 2 ^ k"
      by (intro power_increasing) simp_all
    with A A2 show False by simp
  qed
  then have "(2::int) ^ k dvd 2 ^ 64"
    by (intro le_imp_power_dvd) simp
  with A obtain m where m: "M = m * A"
    unfolding M_def by (auto simp: dvd_def mult.commute)
  have wM: "wrap64 (y - M) = wrap64 y" for y
    unfolding M_def by (rule wrap64_minus_exp)
  have mk: "A - 1 = mask k"
    using A by (simp add: mask_eq_exp_minus_1)
  have an: "y AND NOT (A - 1) = y div A * A" for y
    unfolding mk and_not_mask_int using A by simp
  let ?x = "sz + (A - 1)"
  let ?q = "?x div A * A"
  have w1: "wrap64 (A - 1) = A - 1"
    using A1 A2 by (intro wrap64_id) simp_all
  have x0: "0 \<le> ?x" using A1 lt by simp
  have qm: "?q = ?x - ?x mod A"
    by (simp add: minus_mod_eq_div_mult)
  have "0 \<le> ?x mod A" and "?x mod A < A"
    using A1 by simp_all
  with qm have q1: "?q \<le> ?x" and q2: "sz \<le> ?q" by simp_all
  have ys: "wrap64 (?q - sz) = ?q - sz"
    using q1 q2 A2 by (intro wrap64_id) simp_all
  have ru: "round_up sz A = ?q"
    by (simp add: round_up_def algebra_simps)
  have "wrap64 ((wrap64 ?x AND NOT (A - 1)) - sz) = ?q - sz"
  proof (cases "?x < 2 ^ 63")
    case True
    with x0 have "wrap64 ?x = ?x" by (intro wrap64_id) simp_all
    then show ?thesis using ys by (simp only: an)
  next
    case False
    with A2 hi have "wrap64 (?x - M) = ?x - M"
      unfolding M_def by (intro wrap64_id) simp_all
    then have wx: "wrap64 ?x = ?x - M"
      by (simp only: wM)
    have "(?x - M) div A = (?x + (- m) * A) div A"
      using m by simp
    also have "\<dots> = - m + ?x div A"
      using A1 by (subst div_mult_self1) simp_all
    finally have dv: "(?x - M) div A = ?x div A - m" by simp
    have "(?x - M) div A * A = (?x div A - m) * A"
      by (simp only: dv)
    also have "\<dots> = ?q - m * A"
      by (simp only: left_diff_distrib)
    also have "\<dots> = ?q - M"
      by (simp only: m)
    finally have "(?x - M) div A * A = ?q - M" .
    then have "(wrap64 ?x AND NOT (A - 1)) - sz = (?q - sz) - M"
      by (simp only: wx an)
    then have "wrap64 ((wrap64 ?x AND NOT (A - 1)) - sz) = wrap64 (?q - sz)"
      by (simp only: wM)
    with ys show ?thesis by (simp only:)
  qed
  with lt w1 ru show ?thesis
    by (simp add: align_seek_def)
qed

lemma align_seek_above:
  assumes "sz < A" and "A - sz < 2 ^ 63"
  shows "align_seek A sz = A - sz"
proof -
  have "wrap64 (A - sz) = A - sz"
    using assms by (intro wrap64_id) simp_all
  with assms(1) show ?thesis
    by (simp add: align_seek_def)
qed

text \<open>
  C5.  When \<open>A < size\<close> and \<open>A\<close> is a power of two, \<open>seek\<close> is
  \<open>round_up(size, A) - size\<close> (for every \<open>size\<close> an \<open>int\<close> holds: the wrap-around of
  \<open>size + A - 1\<close> cancels); when \<open>A > size\<close> and \<open>A - size\<close> does not overflow, it is
  \<open>A - size\<close>; when they are equal it is 0.  The directive seeks forward
  by \<open>seek\<close> when it is positive and does not call the source otherwise.
\<close>

theorem C5_alignment_padding:
  "(A < sz \<and> A = 2 ^ k \<and> sz < 2 ^ 63 \<longrightarrow> align_seek A sz = round_up sz A - sz)
   \<and> (sz < A \<and> A - sz < 2 ^ 63 \<longrightarrow> align_seek A sz = A - sz)
   \<and> (A = sz \<longrightarrow> align_seek A sz = 0)
   \<and> (al \<noteq> [] \<and> eval_tag ctx al = Inr A \<longrightarrow>
        field_align ctx al sz r =
          (if 0 < align_seek A sz
           then (Inr (), r\<lparr>Reader := (Reader r)
                   \<lparr>calls := calls (Reader r) @ [SeekCall (align_seek A sz)],
                    pos := pos (Reader r) + nat (align_seek A sz)\<rparr>\<rparr>)
           else (Inr (), r)))"
proof (intro conjI impI)
  assume "A < sz \<and> A = 2 ^ k \<and> sz < 2 ^ 63"
  then show "align_seek A sz = round_up sz A - sz"
    by (intro align_seek_below [of A sz k]) simp_all
next
  assume "sz < A \<and> A - sz < 2 ^ 63"
  then show "align_seek A sz = A - sz"
    by (intro align_seek_above) simp_all
next
  assume "A = sz"
  then show "align_seek A sz = 0"
    by (simp add: align_seek_def)
next
  assume "al \<noteq> [] \<and> eval_tag ctx al = Inr A"
  then show "field_align ctx al sz r =
          (if 0 < align_seek A sz
           then (Inr (), r\<lparr>Reader := (Reader r)
                   \<lparr>calls := calls (Reader r) @ [SeekCall (align_seek A sz)],
                    pos := pos (Reader r) + nat (align_seek A sz)\<rparr>\<rparr>)
           else (Inr (), r))"
    by (simp add: field_align_def Seek_def source_Seek_def Let_def nat_add_distrib)
qed

theorem C5_alignment_padding_witness:
  "(4::int) < 5 \<and> (4::int) = 2 ^ 2 \<and> (5::int) < 2 ^ 63
   \<and> align_seek 4 5 = 3 \<and> round_up 5 4 = 8
   \<and> (3::int) < 4 \<and> (4::int) - 3 < 2 ^ 63 \<and> align_seek 4 3 = 1
   \<and> (2::int) < 3 \<and> (3::int) - 2 < 2 ^ 63 \<and> align_seek 3 2 = 1
   \<and> align_seek 4 4 = 0
   \<and> ''4'' \<noteq> [] \<and> eval_tag (VStruct []) ''4'' = Inr 4
   \<and> field_align (VStruct []) ''4'' 3 (reader_on [1, 2, 3, 4])
       = (Inr (), \<lparr>Reader = \<lparr>data = [1, 2, 3, 4], pos = 1, calls = [SeekCall 1]\<rparr>,
                   Endianess = LittleEndian\<rparr>)
   \<and> field_align (VStruct []) ''4'' 5 (reader_on [1, 2, 3, 4])
       = (Inr (), \<lparr>Reader = \<lparr>data = [1, 2, 3, 4], pos = 3, calls = [SeekCall 3]\<rparr>,
                   Endianess = LittleEndian\<rparr>)
   \<and> field_align (VStruct []) ''4'' 4 (reader_on [1, 2, 3, 4]) = (Inr (), reader_on [1, 2, 3, 4])"
proof -
  have e: "''4'' \<noteq> [] \<and> eval_tag (VStruct []) ''4'' = Inr 4"
    by (simp add: eval_tag_def parse_eval constant_value_def number_value_def digit_value_def
          wrap64_def)
  have r: "round_up 5 4 = 8"
    by (simp add: round_up_def)
  from C5_alignment_padding [of 4 5 2 "''4''" "VStruct []" "reader_on [1, 2, 3, 4]"] e r
  have a: "align_seek 4 5 = 3
     \<and> field_align (VStruct []) ''4'' 5 (reader_on [1, 2, 3, 4])
       = (Inr (), \<lparr>Reader = \<lparr>data = [1, 2, 3, 4], pos = 3, calls = [SeekCall 3]\<rparr>,
                   Endianess = LittleEndian\<rparr>)"
    by (simp add: reader_on_def)
  from C5_alignment_padding [of 4 3 2 "''4''" "VStruct []" "reader_on [1, 2, 3, 4]"] e
  have b: "align_seek 4 3 = 1
     \<and> field_align (VStruct []) ''4'' 3 (reader_on [1, 2, 3, 4])
       = (Inr (), \<lparr>Reader = \<lparr>data = [1, 2, 3, 4], pos = 1, calls = [SeekCall 1]\<rparr>,
                   Endianess = LittleEndian\<rparr>)"
    by (simp add: reader_on_def)
  from C5_alignment_padding [of 3 2 0 "''4''" "VStruct []" "reader_on [1, 2, 3, 4]"]
  have c: "align_seek 3 2 = 1" by simp
  from C5_alignment_padding [of 4 4 2 "''4''" "VStruct []" "reader_on [1, 2, 3, 4]"] e
  have d: "align_seek 4 4 = 0
     \<and> field_align (VStruct []) ''4'' 4 (reader_on [1, 2, 3, 4]) = (Inr (), reader_on [1, 2, 3, 4])"
    by simp
  from e r a b c d show ?thesis by simp
qed

theorem C5_counterexample:
  "eval_tag (VStruct []) ''3'' = Inr 3
   \<and> round_up 5 3 - 5 = 1
   \<and> field_align (VStruct []) ''3'' 5 (reader_on [1, 2, 3, 4]) = (Inr (), reader_on [1, 2, 3, 4])
   \<and> ReadInterface plain_env (pointer_to Prefixed) (VStruct [(''S'', VString [])])
         (reader_on top_bit_bytes)
       = (Inr (VStruct [(''S'', VString [])]),
          \<lparr>Reader = \<lparr>data = top_bit_bytes, pos = 8, calls = [ReadCall 8]\<rparr>,
           Endianess = LittleEndian\<rparr>)
   \<and> align_seek 4 (- (2 ^ 63)) = 4 - 2 ^ 63"
proof -
  have a: "eval_tag (VStruct []) ''3'' = Inr 3
   \<and> round_up 5 3 - 5 = 1
   \<and> field_align (VStruct []) ''3'' 5 (reader_on [1, 2, 3, 4]) = (Inr (), reader_on [1, 2, 3, 4])"
    by (simp add: eval_tag_def parse_eval constant_value_def number_value_def digit_value_def
        wrap64_def round_up_def field_align_def align_seek_def)
  have b: "ReadInterface plain_env (pointer_to Prefixed) (VStruct [(''S'', VString [])])
         (reader_on top_bit_bytes)
       = (Inr (VStruct [(''S'', VString [])]),
          \<lparr>Reader = \<lparr>data = top_bit_bytes, pos = 8, calls = [ReadCall 8]\<rparr>,
           Endianess = LittleEndian\<rparr>)"
    by (simp add: Prefixed_def top_bit_bytes_def engine_eval parse_eval)
  have c: "align_seek 4 (- (2 ^ 63)) = 4 - 2 ^ 63"
    by (simp add: align_seek_def wrap64_def)
  from a b c show ?thesis by simp
qed

















text \<open>
  Two fields whose \<open>size\<close> is not what they consumed.  The slice path (lines 278-296)
  never assigns \<open>size\<close>, which stays the number of elements: two 16-bit numbers consume
  4 bytes, and the directive \<open>align:"4"\<close> seeks 2 from a \<open>size\<close> of 2.  A string without
  a length that meets no null byte within its limit leaves \<open>size\<close> at -1 (line 270 is
  not reached): 2 bytes are consumed, and \<open>align:"4"\<close> seeks 5.
\<close>

lemma size_not_consumed:
  "ReadInterface plain_env (pointer_to Words) (VStruct [(''W'', VList [])])
       (reader_on [1, 0, 2, 0, 9, 9, 9, 9])
     = (Inr (VStruct [(''W'', VList [VUint 1, VUint 2])]),
        \<lparr>Reader = \<lparr>data = [1, 0, 2, 0, 9, 9, 9, 9], pos = 6,
                    calls = [ReadCall 2, ReadCall 2, SeekCall 2]\<rparr>,
         Endianess = LittleEndian\<rparr>)"
  "ReadInterface plain_env (pointer_to Capped) (VStruct [(''S'', VString [])])
       (reader_on [97, 98, 99, 100, 101, 102, 103, 104])
     = (Inr (VStruct [(''S'', VString [97, 98])]),
        \<lparr>Reader = \<lparr>data = [97, 98, 99, 100, 101, 102, 103, 104], pos = 7,
                    calls = [ReadCall 1, ReadCall 1, SeekCall 5]\<rparr>,
         Endianess = LittleEndian\<rparr>)"
  apply (simp add: Words_def engine_eval parse_eval replicate_numeral)
  apply (simp add: Capped_def engine_eval parse_eval)
  done

text \<open>The record of calls only grows; \<open>forward_only\<close> is reflexive and transitive.\<close>

lemma forward_onlyI:
  "calls (Reader r') = calls (Reader r) @ cs \<Longrightarrow> list_all forward_seek cs \<Longrightarrow> forward_only r r'"
  by (simp add: forward_only_def)

lemma forward_onlyD:
  "forward_only r r' \<Longrightarrow>
     \<exists>cs. calls (Reader r') = calls (Reader r) @ cs \<and> list_all forward_seek cs"
  unfolding forward_only_def
  by (metis append_take_drop_id)

lemma forward_only_refl [simp]: "forward_only r r"
  by (simp add: forward_only_def)

lemma forward_only_trans:
  assumes "forward_only r r1" and "forward_only r1 r2"
  shows "forward_only r r2"
proof -
  from forward_onlyD [OF assms(1)] obtain cs where
    a: "calls (Reader r1) = calls (Reader r) @ cs" "list_all forward_seek cs" by blast
  from forward_onlyD [OF assms(2)] obtain ds where
    b: "calls (Reader r2) = calls (Reader r1) @ ds" "list_all forward_seek ds" by blast
  from a b show ?thesis
    by (intro forward_onlyI [of _ _ "cs @ ds"]) simp_all
qed

lemma forward_only_case:
  assumes "forward_only r (snd m)"
    and "\<And>a r1. m = (Inr a, r1) \<Longrightarrow> forward_only r1 (snd (f a r1))"
  shows "forward_only r (snd (case m of (Inl e, r1) \<Rightarrow> (Inl e, r1) | (Inr a, r1) \<Rightarrow> f a r1))"
proof (cases m)
  case (Pair x r1)
  show ?thesis
  proof (cases x)
    case (Inl e)
    with Pair assms(1) show ?thesis by simp
  next
    case (Inr a)
    with Pair assms(1) assms(2) [of a r1] show ?thesis
      by (auto intro: forward_only_trans)
  qed
qed

lemma snd_case_result [simp]:
  "snd (case m of (Inl e, r1) \<Rightarrow> (Inl e, r1) | (Inr a, r1) \<Rightarrow> (g a, r1)) = snd m"
  by (auto split: prod.splits sum.splits)

lemma Read_forward_only [simp]: "forward_only r (snd (Read n r))"
  by (auto simp: Read_def source_Read_def Let_def forward_only_def forward_seek_def
        split: prod.splits sum.splits)

lemma Uint_forward_only [simp]:
  "forward_only r (snd (Uint8 r))" "forward_only r (snd (Uint16 r))"
  "forward_only r (snd (Uint32 r))" "forward_only r (snd (Uint64 r))"
  "forward_only r (snd (Int8 r))" "forward_only r (snd (Int16 r))"
  "forward_only r (snd (Int32 r))" "forward_only r (snd (Int64 r))"
  "forward_only r (snd (Float32 r))" "forward_only r (snd (Float64 r))"
proof -
  have a: "snd (Uint8 r) = snd (Read 1 r)" for r
    by (auto simp: Uint8_def split: prod.splits sum.splits list.splits)
  have b: "snd (Int8 r) = snd (Read 1 r)" for r
    by (auto simp: Int8_def split: prod.splits sum.splits list.splits)
  show "forward_only r (snd (Uint8 r))" by (simp add: a)
  show "forward_only r (snd (Int8 r))" by (simp add: b)
  show "forward_only r (snd (Uint16 r))" by (simp add: Uint16_def)
  show "forward_only r (snd (Uint32 r))" by (simp add: Uint32_def)
  show "forward_only r (snd (Uint64 r))" by (simp add: Uint64_def)
  show "forward_only r (snd (Int16 r))" by (simp add: Int16_def Uint16_def)
  show "forward_only r (snd (Int32 r))" by (simp add: Int32_def Uint32_def)
  show "forward_only r (snd (Int64 r))" by (simp add: Int64_def Uint64_def)
  show "forward_only r (snd (Float32 r))" by (simp add: Float32_def Int32_def Uint32_def)
  show "forward_only r (snd (Float64 r))" by (simp add: Float64_def Int64_def Uint64_def)
qed

lemma cstring_loop_forward_only [simp]: "forward_only r (snd (cstring_loop mx i dat sz r))"
proof (induction mx i dat sz r rule: cstring_loop.induct)
  case (1 mx i dat sz r)
  show ?case
  proof (cases "i < mx")
    case False
    then show ?thesis by (simp add: cstring_loop.simps [of mx i dat sz r])
  next
    case True
    obtain x r1 where u: "Uint8 r = (x, r1)" by (cases "Uint8 r")
    have f: "forward_only r r1" using Uint_forward_only(1) [of r] u by simp
    show ?thesis
    proof (cases x)
      case (Inl e)
      with True u f show ?thesis by (simp add: cstring_loop.simps [of mx i dat sz r])
    next
      case (Inr b)
      show ?thesis
      proof (cases "b = 0")
        case True
        with \<open>i < mx\<close> u f Inr show ?thesis by (simp add: cstring_loop.simps [of mx i dat sz r])
      next
        case False
        from "1.IH" [OF \<open>i < mx\<close> u [symmetric] Inr False] f
        have "forward_only r (snd (cstring_loop mx (i + 1) (dat @ [b]) sz r1))"
          by (rule forward_only_trans [rotated])
        with \<open>i < mx\<close> u Inr False show ?thesis
          by (simp add: cstring_loop.simps [of mx i dat sz r])
      qed
    qed
  qed
qed


lemma string_field_forward_only [simp]: "forward_only r (snd (string_field ctx m sz r))"
  by (auto simp: string_field_def intro!: forward_only_case split: sum.splits)








text \<open>The seeks that the source records are those that the \<open>seeks\<close> functions list.\<close>

lemma seek_offsets_append [simp]: "seek_offsets (cs @ ds) = seek_offsets cs @ seek_offsets ds"
  by (induction cs rule: seek_offsets.induct) simp_all

lemma seeks_addedI:
  "calls (Reader r') = calls (Reader r) @ cs \<Longrightarrow> seek_offsets cs = offs \<Longrightarrow> seeks_added r r' offs"
  by (simp add: seeks_added_def)

lemma seeks_addedD:
  "seeks_added r r' offs \<Longrightarrow>
     \<exists>cs. calls (Reader r') = calls (Reader r) @ cs \<and> seek_offsets cs = offs"
  unfolding seeks_added_def
  by (metis append_take_drop_id)

lemma seeks_added_refl [simp]: "seeks_added r r []"
  by (simp add: seeks_added_def)

lemma seeks_added_trans:
  assumes "seeks_added r r1 xs" and "seeks_added r1 r2 ys"
  shows "seeks_added r r2 (xs @ ys)"
proof -
  from seeks_addedD [OF assms(1)] obtain cs where
    a: "calls (Reader r1) = calls (Reader r) @ cs" "seek_offsets cs = xs" by blast
  from seeks_addedD [OF assms(2)] obtain ds where
    b: "calls (Reader r2) = calls (Reader r1) @ ds" "seek_offsets ds = ys" by blast
  from a b show ?thesis
    by (intro seeks_addedI [of _ _ "cs @ ds"]) simp_all
qed

lemma seeks_added_trans_nil:
  assumes "seeks_added r r1 xs" and "seeks_added r1 r2 []"
  shows "seeks_added r r2 xs"
  using seeks_added_trans [OF assms] by simp


lemma seeks_added_case_nil:
  assumes "seeks_added r (snd m) []"
    and "\<And>a r1. m = (Inr a, r1) \<Longrightarrow> seeks_added r1 (snd (f a r1)) []"
  shows "seeks_added r (snd (case m of (Inl e, r1) \<Rightarrow> (Inl e, r1) | (Inr a, r1) \<Rightarrow> f a r1)) []"
proof (cases m)
  case (Pair x r1)
  show ?thesis
  proof (cases x)
    case (Inl e)
    with Pair assms(1) show ?thesis by simp
  next
    case (Inr a)
    with Pair assms(1) assms(2) [of a r1] show ?thesis
      by (auto intro: seeks_added_trans_nil)
  qed
qed

lemma Read_seeks_added [simp]: "seeks_added r (snd (Read n r)) []"
  by (auto simp: Read_def source_Read_def Let_def seeks_added_def
        split: prod.splits sum.splits)

lemma Uint_seeks_added [simp]:
  "seeks_added r (snd (Uint8 r)) []" "seeks_added r (snd (Uint16 r)) []"
  "seeks_added r (snd (Uint32 r)) []" "seeks_added r (snd (Uint64 r)) []"
  "seeks_added r (snd (Int8 r)) []" "seeks_added r (snd (Int16 r)) []"
  "seeks_added r (snd (Int32 r)) []" "seeks_added r (snd (Int64 r)) []"
  "seeks_added r (snd (Float32 r)) []" "seeks_added r (snd (Float64 r)) []"
proof -
  have a: "snd (Uint8 r) = snd (Read 1 r)" for r
    by (auto simp: Uint8_def split: prod.splits sum.splits list.splits)
  have b: "snd (Int8 r) = snd (Read 1 r)" for r
    by (auto simp: Int8_def split: prod.splits sum.splits list.splits)
  show "seeks_added r (snd (Uint8 r)) []" by (simp add: a)
  show "seeks_added r (snd (Int8 r)) []" by (simp add: b)
  show "seeks_added r (snd (Uint16 r)) []" by (simp add: Uint16_def)
  show "seeks_added r (snd (Uint32 r)) []" by (simp add: Uint32_def)
  show "seeks_added r (snd (Uint64 r)) []" by (simp add: Uint64_def)
  show "seeks_added r (snd (Int16 r)) []" by (simp add: Int16_def Uint16_def)
  show "seeks_added r (snd (Int32 r)) []" by (simp add: Int32_def Uint32_def)
  show "seeks_added r (snd (Int64 r)) []" by (simp add: Int64_def Uint64_def)
  show "seeks_added r (snd (Float32 r)) []" by (simp add: Float32_def Int32_def Uint32_def)
  show "seeks_added r (snd (Float64 r)) []" by (simp add: Float64_def Int64_def Uint64_def)
qed

lemma cstring_loop_seeks_added [simp]: "seeks_added r (snd (cstring_loop mx i dat sz r)) []"
proof (induction mx i dat sz r rule: cstring_loop.induct)
  case (1 mx i dat sz r)
  show ?case
  proof (cases "i < mx")
    case False
    then show ?thesis by (simp add: cstring_loop.simps [of mx i dat sz r])
  next
    case True
    obtain x r1 where u: "Uint8 r = (x, r1)" by (cases "Uint8 r")
    have f: "seeks_added r r1 []" using Uint_seeks_added(1) [of r] u by simp
    show ?thesis
    proof (cases x)
      case (Inl e)
      with True u f show ?thesis by (simp add: cstring_loop.simps [of mx i dat sz r])
    next
      case (Inr b)
      show ?thesis
      proof (cases "b = 0")
        case True
        with \<open>i < mx\<close> u f Inr show ?thesis by (simp add: cstring_loop.simps [of mx i dat sz r])
      next
        case False
        from f "1.IH" [OF \<open>i < mx\<close> u [symmetric] Inr False]
        have "seeks_added r (snd (cstring_loop mx (i + 1) (dat @ [b]) sz r1)) []"
          by (rule seeks_added_trans_nil)
        with \<open>i < mx\<close> u Inr False show ?thesis
          by (simp add: cstring_loop.simps [of mx i dat sz r])
      qed
    qed
  qed
qed


lemma string_field_seeks_added [simp]: "seeks_added r (snd (string_field ctx m sz r)) []"
  by (auto simp: string_field_def intro!: seeks_added_case_nil split: sum.splits)









end
